theory Spec2Isabelle
  imports Complex_Main "HOL-Library.Word"
begin

unbundle bit_operations_syntax

section \<open>Data model of the firmware\<close>

text \<open>
  The firmware is one Arduino sketch for the ATmega328P: \<open>int\<close> and \<open>uint16_t\<close> are
  16 bits wide, \<open>unsigned long\<close> and \<open>uint32_t\<close> 32 bits, and structs have no padding.
  Its globals, the \<open>static\<close> locals of its functions and the devices it drives are
  gathered in one record that every function takes and returns.
\<close>

datatype LedColor = LED_OFF | LED_G | LED_B | LED_Y | LED_O | LED_R | LED_W

datatype Mode = STANDARD | ECONOMIQUE | MAINTENANCE | CONFIGURATION

datatype level = LOW | HIGH

record Settings =
  logMin :: "16 word"
  toutSec :: "16 word"
  maxBytes :: "32 word"
  enMask :: "8 word"
  crc :: "16 word"

text \<open>
  A C \<open>float\<close> as far as the sketch looks at it: it is only tested with \<open>isnan\<close> and
  compared with constants that are exact in single precision.
\<close>

datatype cfloat = NaN | NegInf | PosInf | Fin real

fun isnan :: "cfloat \<Rightarrow> bool" where
  "isnan NaN = True"
| "isnan _ = False"

fun flt_less :: "cfloat \<Rightarrow> real \<Rightarrow> bool" where
  "flt_less NaN c = False"
| "flt_less NegInf c = True"
| "flt_less PosInf c = False"
| "flt_less (Fin x) c = (x < c)"

fun flt_greater :: "cfloat \<Rightarrow> real \<Rightarrow> bool" where
  "flt_greater NaN c = False"
| "flt_greater NegInf c = False"
| "flt_greater PosInf c = True"
| "flt_greater (Fin x) c = (x > c)"

text \<open>
  What the sketch prints on the serial port, one entry per line. The plain
  acknowledgements are kept as text; the decorated banners have a constructor each.
\<close>

datatype serial_out =
    Println string
  | ModeBanner Mode
  | HelpText
  | MeasureLine string cfloat cfloat cfloat cfloat
  | SdOpenFailed
  | NewLogMsg string
  | BmeDetected bool
  | LumReady
  | RtcMissing
  | SdMissing
  | HelpHint

text \<open>Date and time as \<open>rtc.now()\<close> returns it and as \<open>rtc.adjust\<close> takes it.\<close>

record DateTime =
  year :: nat
  month :: nat
  day :: nat
  hour :: nat
  minute :: nat
  second :: nat

text \<open>
  What one call reads from the outside world: the sensor drivers, the clock chip, the
  card, the clock readings \<open>millis()\<close> returns at each place of \<open>loop\<close>, the bytes
  waiting on the serial port, the two library routines \<open>dtostrf\<close> and the
  six-field \<open>sscanf\<close> of the DATE command, and what the boot sequence finds.
\<close>

record env =
  bme_temperature :: cfloat
  bme_humidity :: cfloat
  bme_pressure_hPa :: cfloat
  analogRead_LUM :: int
  rtc_now :: DateTime
  sd_open_ok :: "string \<Rightarrow> bool"
  sd_write_ok :: bool
  dtostrf :: "cfloat \<Rightarrow> nat \<Rightarrow> string"
  sscanf_date :: "string \<Rightarrow> (int \<times> int \<times> int \<times> int \<times> int \<times> int) option"
  serial_in :: string
  ms_serial :: "32 word"
  ms_tick :: "32 word"
  ms_cfg :: "32 word"
  ms_led :: "32 word"
  rtc_begin :: bool
  sd_begin :: bool
  bme_begin_0x76 :: bool
  bme_begin_0x77 :: bool
  digitalRead_BTN_R :: level

record state =
  gErrors :: "8 word"
  fEco :: bool
  fMaint :: bool
  fStd :: bool
  fQuitM :: bool
  modeCur :: Mode
  modePrev :: Mode
  tV :: "32 word"
  tR :: "32 word"
  haveRTC :: bool
  haveSD :: bool
  enBME :: bool
  enLUM :: bool
  cfg :: Settings
  logFile :: "string option"
  logName :: string
  logIdx :: "16 word"
  sBME_present :: bool
  sLUM_present :: bool
  baseColor :: LedColor
  ledBeatMs :: "32 word"
  ledPhase :: bool
  tickStd_t :: "32 word"
  tickEco_t :: "32 word"
  upd_last :: LedColor
  upd_lastE :: "8 word"
  upd_cur :: "16 word"
  lastCmdMs :: "32 word"
  cmdBuf :: string
  led_rgb :: "nat \<times> nat \<times> nat"
  eeprom :: Settings
  sd_files :: "string \<Rightarrow> string option"
  rtc_adjusted :: "(int \<times> int \<times> int \<times> int \<times> int \<times> int) option"
  serial :: "serial_out list"

subsection \<open>Error flags\<close>

definition ERR_NONE :: "8 word" where "ERR_NONE = 0"
definition ERR_RTC :: "8 word" where "ERR_RTC = 1"
definition ERR_SENSOR :: "8 word" where "ERR_SENSOR = 4"
definition ERR_INCOH :: "8 word" where "ERR_INCOH = 8"
definition ERR_SD_FULL :: "8 word" where "ERR_SD_FULL = 16"
definition ERR_SD_RW :: "8 word" where "ERR_SD_RW = 32"

definition HOLD_MS :: "32 word" where "HOLD_MS = 2000"
definition CFG_BACK :: "32 word" where "CFG_BACK = 30000"
definition DEF_LOG_MIN :: "16 word" where "DEF_LOG_MIN = 10"
definition DEF_TOUT :: "16 word" where "DEF_TOUT = 3"
definition DEF_MAXB :: "32 word" where "DEF_MAXB = 2048"

section \<open>Status LED\<close>

fun rgb :: "LedColor \<Rightarrow> nat \<times> nat \<times> nat" where
  "rgb LED_G = (0, 255, 0)"
| "rgb LED_B = (0, 0, 255)"
| "rgb LED_Y = (255, 255, 0)"
| "rgb LED_O = (255, 100, 0)"
| "rgb LED_R = (255, 0, 0)"
| "rgb LED_W = (255, 255, 255)"
| "rgb LED_OFF = (0, 0, 0)"

definition setLed :: "LedColor \<Rightarrow> state \<Rightarrow> state" where
  "setLed c s = s\<lparr>led_rgb := rgb c\<rparr>"

section \<open>Configuration in EEPROM\<close>

text \<open>
  \<open>crc16\<close> adds the first \<open>sizeof(Settings) - 2\<close> bytes of the struct, that is every
  field but \<open>crc\<close>, in the little-endian layout of the AVR.
\<close>

definition bytes16 :: "16 word \<Rightarrow> 8 word list" where
  "bytes16 w = [ucast w, ucast (drop_bit 8 w)]"

definition bytes32 :: "32 word \<Rightarrow> 8 word list" where
  "bytes32 w = [ucast w, ucast (drop_bit 8 w), ucast (drop_bit 16 w), ucast (drop_bit 24 w)]"

definition payload_bytes :: "Settings \<Rightarrow> 8 word list" where
  "payload_bytes c =
     bytes16 (logMin c) @ bytes16 (toutSec c) @ bytes32 (maxBytes c) @ [enMask c]"

definition crc16 :: "Settings \<Rightarrow> 16 word" where
  "crc16 c = fold (\<lambda>b sum. sum + ucast b) (payload_bytes c) 0 XOR 0xA55A"

definition mask_of :: "bool \<Rightarrow> bool \<Rightarrow> 8 word" where
  "mask_of bme lum = (if bme then 1 else 0) OR (if lum then 2 else 0)"

definition setDefaults :: "state \<Rightarrow> state" where
  "setDefaults s =
     (let c = (cfg s)\<lparr>logMin := DEF_LOG_MIN, toutSec := DEF_TOUT, maxBytes := DEF_MAXB,
                       enMask := mask_of (enBME s) (enLUM s)\<rparr>
      in s\<lparr>cfg := c\<lparr>crc := crc16 c\<rparr>\<rparr>)"

definition saveEEPROM :: "state \<Rightarrow> state" where
  "saveEEPROM s =
     (let c = (cfg s)\<lparr>enMask := mask_of (enBME s) (enLUM s)\<rparr>;
          c' = c\<lparr>crc := crc16 c\<rparr>
      in s\<lparr>cfg := c', eeprom := c'\<rparr>)"

definition loadEEPROM :: "state \<Rightarrow> state" where
  "loadEEPROM s =
     (let s1 = s\<lparr>cfg := eeprom s\<rparr>;
          s2 = (if crc16 (cfg s1) \<noteq> crc (cfg s1) then saveEEPROM (setDefaults s1) else s1)
      in s2\<lparr>enBME := (enMask (cfg s2) AND 1 \<noteq> 0), enLUM := (enMask (cfg s2) AND 2 \<noteq> 0)\<rparr>)"

section \<open>Button interrupt handlers\<close>

definition isrV :: "level \<Rightarrow> 32 word \<Rightarrow> state \<Rightarrow> state" where
  "isrV lv now s =
     (if lv = LOW then s\<lparr>tV := now\<rparr>
      else
        (let s1 = (if tV s \<noteq> 0 \<and> HOLD_MS \<le> now - tV s
                   then (if modeCur s = ECONOMIQUE then s\<lparr>fStd := True\<rparr> else s\<lparr>fEco := True\<rparr>)
                   else s)
         in s1\<lparr>tV := 0\<rparr>))"

definition isrR :: "level \<Rightarrow> 32 word \<Rightarrow> state \<Rightarrow> state" where
  "isrR lr now s =
     (if lr = LOW then s\<lparr>tR := now\<rparr>
      else
        (let s1 = (if tR s \<noteq> 0 \<and> HOLD_MS \<le> now - tR s
                   then (if modeCur s = MAINTENANCE then s\<lparr>fQuitM := True\<rparr> else s\<lparr>fMaint := True\<rparr>)
                   else s)
         in s1\<lparr>tR := 0\<rparr>))"

section \<open>Log files on the card\<close>

text \<open>
  \<open>snprintf\<close> with \<open>%0wu\<close>: at least \<open>w\<close> decimal digits, zero padded. Every number
  the sketch formats is at most 16 bits wide.
\<close>

fun dec_digits :: "nat \<Rightarrow> nat \<Rightarrow> string" where
  "dec_digits 0 n = []"
| "dec_digits (Suc k) n = dec_digits k (n div 10) @ [char_of (48 + n mod 10)]"

definition ndigits :: "nat \<Rightarrow> nat" where
  "ndigits n = (if n < 10 then 1 else if n < 100 then 2 else if n < 1000 then 3
                else if n < 10000 then 4 else 5)"

definition fmt_u :: "nat \<Rightarrow> nat \<Rightarrow> string" where
  "fmt_u w n = dec_digits (max w (ndigits n)) n"

definition CRLF :: string where
  "CRLF = [CHR 0x0D, CHR 0x0A]"

definition csv_header :: string where
  "csv_header = ''DateTime;TempC;Hum%;hPa;Lum'' @ CRLF"

definition fsize :: "state \<Rightarrow> string \<Rightarrow> nat" where
  "fsize s nm = (case sd_files s nm of None \<Rightarrow> 0 | Some c \<Rightarrow> length c)"

text \<open>Printing on the open log file appends to it; on a closed handle or a failing card nothing is written.\<close>

definition file_print :: "env \<Rightarrow> string \<Rightarrow> state \<Rightarrow> state" where
  "file_print e txt s =
     (case logFile s of
        None \<Rightarrow> s
      | Some nm \<Rightarrow>
          if sd_write_ok e
          then s\<lparr>sd_files := (sd_files s)(nm \<mapsto> (case sd_files s nm of None \<Rightarrow> [] | Some c \<Rightarrow> c) @ txt)\<rparr>
          else s)"

text \<open>\<open>snprintf(logName, sizeof(logName), "LOG%03u.CSV", idx)\<close> into the 16-byte buffer.\<close>

definition log_name :: "16 word \<Rightarrow> string" where
  "log_name idx = take 15 (''LOG'' @ fmt_u 3 (unat idx) @ ''.CSV'')"

definition openNewLog :: "env \<Rightarrow> state \<Rightarrow> bool \<times> state" where
  "openNewLog e s =
     (let s1 = (if logFile s \<noteq> None then s\<lparr>logFile := None\<rparr> else s);
          nm = log_name (logIdx s1);
          s2 = s1\<lparr>logName := nm, logIdx := logIdx s1 + 1, logFile := None\<rparr>
      in if \<not> sd_open_ok e nm
         then (False, s2\<lparr>gErrors := gErrors s2 OR ERR_SD_FULL,
                          serial := serial s2 @ [SdOpenFailed]\<rparr>)
         else
           (let s3 = s2\<lparr>logFile := Some nm,
                        sd_files := (if sd_files s2 nm = None then (sd_files s2)(nm \<mapsto> [])
                                     else sd_files s2),
                        gErrors := gErrors s2 AND NOT ERR_SD_FULL\<rparr>;
                s4 = (if fsize s3 nm = 0 then file_print e csv_header s3 else s3)
            in (True, s4\<lparr>serial := serial s4 @ [NewLogMsg nm]\<rparr>)))"

definition rotateIfNeed :: "env \<Rightarrow> state \<Rightarrow> state" where
  "rotateIfNeed e s =
     (case logFile s of
        None \<Rightarrow> s
      | Some nm \<Rightarrow>
          if maxBytes (cfg s) \<le> (word_of_nat (fsize s nm) :: 32 word)
          then snd (openNewLog e s) else s)"

section \<open>Sensors and one acquisition\<close>

definition readBME :: "env \<Rightarrow> state \<Rightarrow> cfloat \<times> cfloat \<times> cfloat" where
  "readBME e s =
     (if \<not> sBME_present s \<or> \<not> enBME s then (NaN, NaN, NaN)
      else (bme_temperature e, bme_humidity e, bme_pressure_hPa e))"

definition readLUM :: "env \<Rightarrow> state \<Rightarrow> cfloat" where
  "readLUM e s = (if \<not> enLUM s then NaN else Fin (of_int (analogRead_LUM e)))"

definition printDateTime :: "env \<Rightarrow> state \<Rightarrow> string" where
  "printDateTime e s =
     (if \<not> haveRTC s then ''NA''
      else (let n = rtc_now e
            in take 19 (fmt_u 4 (year n) @ ''-'' @ fmt_u 2 (month n) @ ''-'' @ fmt_u 2 (day n)
                        @ '' '' @ fmt_u 2 (hour n) @ '':'' @ fmt_u 2 (minute n) @ '':''
                        @ fmt_u 2 (second n))))"

definition printNum :: "env \<Rightarrow> cfloat \<Rightarrow> nat \<Rightarrow> string" where
  "printNum e v prec = (if isnan v then ''NA'' else dtostrf e v prec)"

definition csv_line :: "env \<Rightarrow> state \<Rightarrow> cfloat \<Rightarrow> cfloat \<Rightarrow> cfloat \<Rightarrow> cfloat \<Rightarrow> string" where
  "csv_line e s t h p l =
     printDateTime e s @ '';'' @ printNum e t 1 @ '';'' @ printNum e h 0 @ '';''
     @ printNum e p 1 @ '';'' @ printNum e l 0 @ CRLF"

text \<open>The four range tests of \<open>logOnce\<close>; each one can only set \<open>incoh\<close>.\<close>

definition incoh_of :: "cfloat \<Rightarrow> cfloat \<Rightarrow> cfloat \<Rightarrow> cfloat \<Rightarrow> bool" where
  "incoh_of t h p l =
     ((\<not> isnan t \<and> (flt_less t (- 40) \<or> flt_greater t 85))
      \<or> (\<not> isnan h \<and> (flt_less h 0 \<or> flt_greater h 100))
      \<or> (\<not> isnan p \<and> (flt_less p 300 \<or> flt_greater p 1100))
      \<or> (\<not> isnan l \<and> (flt_less l 0 \<or> flt_greater l 1023)))"

definition logOnce :: "env \<Rightarrow> state \<Rightarrow> state" where
  "logOnce e s =
     (let (t, h, p) = readBME e s;
          l = readLUM e s;
          s1 = (if enBME s \<and> \<not> sBME_present s then s\<lparr>gErrors := gErrors s OR ERR_SENSOR\<rparr> else s);
          s2 = (if incoh_of t h p l then s1\<lparr>gErrors := gErrors s1 OR ERR_INCOH\<rparr>
                else s1\<lparr>gErrors := gErrors s1 AND NOT ERR_INCOH\<rparr>);
          s3 = s2\<lparr>serial := serial s2 @ [MeasureLine (printDateTime e s2) t h p l]\<rparr>
      in if haveSD s3 then
           (if logFile s3 \<noteq> None then
              (let s4 = file_print e (csv_line e s3 t h p l) s3;
                   s5 = rotateIfNeed e s4
               in s5\<lparr>gErrors := gErrors s5 AND NOT ERR_SD_RW\<rparr>)
            else s3\<lparr>gErrors := gErrors s3 OR ERR_SD_RW\<rparr>)
         else s3\<lparr>gErrors := gErrors s3 OR ERR_SD_RW\<rparr>)"

section \<open>Modes and the periodic tasks\<close>

fun mode_color :: "Mode \<Rightarrow> LedColor" where
  "mode_color STANDARD = LED_G"
| "mode_color ECONOMIQUE = LED_B"
| "mode_color MAINTENANCE = LED_O"
| "mode_color CONFIGURATION = LED_Y"

definition enterMode :: "Mode \<Rightarrow> state \<Rightarrow> state" where
  "enterMode m s =
     (let s1 = s\<lparr>modeCur := m, baseColor := mode_color m, serial := serial s @ [ModeBanner m]\<rparr>
      in setLed (baseColor s1) s1)"

definition intStd :: "state \<Rightarrow> 32 word" where
  "intStd s = ucast (logMin (cfg s)) * 1000"

definition intEco :: "state \<Rightarrow> 32 word" where
  "intEco s = ucast (logMin (cfg s)) * 2000"

definition tickStd :: "env \<Rightarrow> state \<Rightarrow> state" where
  "tickStd e s =
     (let n = ms_tick e
      in if tickStd_t s = 0 \<or> intStd s \<le> n - tickStd_t s
         then logOnce e (s\<lparr>tickStd_t := n\<rparr>) else s)"

definition tickEco :: "env \<Rightarrow> state \<Rightarrow> state" where
  "tickEco e s =
     (let n = ms_tick e
      in if tickEco_t s = 0 \<or> intEco s \<le> n - tickEco_t s
         then logOnce e (s\<lparr>tickEco_t := n\<rparr>) else s)"

definition tickMaint :: "state \<Rightarrow> state" where
  "tickMaint s = s"

definition tickCfg :: "state \<Rightarrow> state" where
  "tickCfg s = s"

section \<open>Serial commands\<close>

definition isspace :: "char \<Rightarrow> bool" where
  "isspace c = (c = CHR '' '' \<or> c = CHR 0x09 \<or> c = CHR 0x0A \<or> c = CHR 0x0B
                \<or> c = CHR 0x0C \<or> c = CHR 0x0D)"

definition isdigit :: "char \<Rightarrow> bool" where
  "isdigit c = (48 \<le> (of_char c :: nat) \<and> (of_char c :: nat) \<le> 57)"

fun digits_val :: "int \<Rightarrow> string \<Rightarrow> int" where
  "digits_val acc [] = acc"
| "digits_val acc (c # cs) =
     (if isdigit c then digits_val (acc * 10 + (of_char c - 48)) cs else acc)"

text \<open>
  \<open>atoi\<close> and \<open>atol\<close> of the C library: white space, an optional sign, then decimal
  digits. The sketch casts the result to \<open>uint16_t\<close> or \<open>uint32_t\<close>, which keeps the
  low bits of the number read.
\<close>

definition atoi :: "string \<Rightarrow> int" where
  "atoi str =
     (case dropWhile isspace str of
        [] \<Rightarrow> 0
      | c # cs \<Rightarrow>
          if c = CHR ''-'' then - digits_val 0 cs
          else if c = CHR ''+'' then digits_val 0 cs
          else digits_val 0 (c # cs))"

text \<open>\<open>sscanf(str, "%3[^:]:%3s", w, val) == 2\<close>, with the two fields it stores.\<close>

definition scan_capteur :: "string \<Rightarrow> (string \<times> string) option" where
  "scan_capteur str =
     (let w = takeWhile (\<lambda>c. c \<noteq> CHR '':'') (take 3 str)
      in if w = [] then None
         else (case drop (length w) str of
                 [] \<Rightarrow> None
               | c # rest \<Rightarrow>
                   if c \<noteq> CHR '':'' then None
                   else (let v = take 3 (takeWhile (\<lambda>c. \<not> isspace c) (dropWhile isspace rest))
                         in if v = [] then None else Some (w, v))))"

definition starts :: "string \<Rightarrow> string \<Rightarrow> bool" where
  "starts s p = (take (length p) s = p)"

text \<open>The command buffer as the C string the parser sees: it ends at the first NUL byte.\<close>

definition cstr :: "string \<Rightarrow> string" where
  "cstr b = takeWhile (\<lambda>c. c \<noteq> CHR 0x00) b"

definition println :: "string \<Rightarrow> state \<Rightarrow> state" where
  "println txt s = s\<lparr>serial := serial s @ [Println txt]\<rparr>"

definition showHelp :: "state \<Rightarrow> state" where
  "showHelp s = s\<lparr>serial := serial s @ [HelpText]\<rparr>"

definition handleCmdLine :: "env \<Rightarrow> state \<Rightarrow> state" where
  "handleCmdLine e st =
     (let s = dropWhile (\<lambda>c. c = CHR '' '') (cstr (cmdBuf st))
      in if s = [] then st
         else if s = ''HELP'' then showHelp st
         else if s = ''VERSION'' then println ''WWW-Pretty 1.0'' st
         else if starts s ''LOG_INTERVAL='' then
           println ''OK LOG_INTERVAL''
             (saveEEPROM (st\<lparr>cfg := (cfg st)\<lparr>logMin := word_of_int (atoi (drop 13 s))\<rparr>\<rparr>))
         else if starts s ''TIMEOUT='' then
           println ''OK TIMEOUT''
             (saveEEPROM (st\<lparr>cfg := (cfg st)\<lparr>toutSec := word_of_int (atoi (drop 8 s))\<rparr>\<rparr>))
         else if starts s ''FILE_MAX_SIZE='' then
           println ''OK FILE_MAX_SIZE''
             (saveEEPROM (st\<lparr>cfg := (cfg st)\<lparr>maxBytes := word_of_int (atoi (drop 14 s))\<rparr>\<rparr>))
         else if starts s ''CAPTEUR='' then
           (case scan_capteur (drop 8 s) of
              None \<Rightarrow> st
            | Some (w, val) \<Rightarrow>
                (let on = (hd val = CHR ''o'' \<or> hd val = CHR ''O'');
                     st1 = (if hd w = CHR ''B'' \<or> hd w = CHR ''b'' then st\<lparr>enBME := on\<rparr>
                            else if hd w = CHR ''L'' \<or> hd w = CHR ''l'' then st\<lparr>enLUM := on\<rparr>
                            else st)
                 in println ''OK CAPTEUR'' (saveEEPROM st1)))
         else if starts s ''DATE='' then
           (if \<not> haveRTC st then println ''ERR RTC'' st
            else (case sscanf_date e (drop 5 s) of
                    Some d \<Rightarrow> println ''OK DATE'' (st\<lparr>rtc_adjusted := Some d\<rparr>)
                  | None \<Rightarrow> println ''ERR DATE'' st))
         else if s = ''READ'' then logOnce e st
         else if s = ''EJECT'' then
           println ''OK EJECT'' (if logFile st \<noteq> None then st\<lparr>logFile := None\<rparr> else st)
         else if s = ''RESET'' then println ''OK RESET'' (saveEEPROM (setDefaults st))
         else println ''Commande inconnue. HELP'' st)"

definition handleCmdChar :: "env \<Rightarrow> char \<Rightarrow> state \<Rightarrow> state" where
  "handleCmdChar e c s =
     (if c = CHR 0x0D then s
      else if c = CHR 0x0A then (handleCmdLine e s)\<lparr>cmdBuf := []\<rparr>
      else if length (cmdBuf s) < 95 then s\<lparr>cmdBuf := cmdBuf s @ [c]\<rparr>
      else s)"

section \<open>Error display\<close>

definition select_err :: "8 word \<Rightarrow> 8 word" where
  "select_err g =
     (if g AND ERR_SD_RW \<noteq> 0 then ERR_SD_RW
      else if g AND ERR_SD_FULL \<noteq> 0 then ERR_SD_FULL
      else if g AND ERR_RTC \<noteq> 0 then ERR_RTC
      else if g AND ERR_SENSOR \<noteq> 0 then ERR_SENSOR
      else ERR_INCOH)"

text \<open>The colours A and B and the two half periods \<open>updateErrorLED\<close> derives from \<open>e\<close>.\<close>

definition pattern :: "8 word \<Rightarrow> LedColor \<times> LedColor \<times> 16 word \<times> 16 word" where
  "pattern e =
     (let tS = 220; tL = 600; tE = 360
      in if e = ERR_RTC then (LED_R, LED_B, tE, tE)
         else if e = ERR_SENSOR then (LED_R, LED_G, tE, tE)
         else if e = ERR_INCOH then (LED_R, LED_G, tS, tL)
         else (LED_R, LED_W, if e = ERR_SD_RW then tS else tE, if e = ERR_SD_RW then tL else tE))"

definition updateErrorLED :: "32 word \<Rightarrow> state \<Rightarrow> state" where
  "updateErrorLED now s =
     (if gErrors s = ERR_NONE then
        (if upd_last s \<noteq> baseColor s then (setLed (baseColor s) s)\<lparr>upd_last := baseColor s\<rparr>
         else s)
      else
        (let e = select_err (gErrors s);
             (colA, colB, halfA, halfB) = pattern e
         in if e \<noteq> upd_lastE s then
              setLed colA (s\<lparr>upd_lastE := e, ledPhase := False, ledBeatMs := now, upd_cur := halfA\<rparr>)
            else if ucast (upd_cur s) \<le> now - ledBeatMs s then
              (let s1 = s\<lparr>ledBeatMs := now, ledPhase := \<not> ledPhase s\<rparr>
               in if ledPhase s1 then (setLed colB s1)\<lparr>upd_cur := halfB\<rparr>
                  else (setLed colA s1)\<lparr>upd_cur := halfA\<rparr>)
            else s))"

section \<open>Setup and the main loop\<close>

text \<open>The globals and static locals as their initialisers leave them, around a given EEPROM and card.\<close>

definition power_on :: "Settings \<Rightarrow> (string \<Rightarrow> string option) \<Rightarrow> state" where
  "power_on rom files =
     \<lparr>gErrors = ERR_NONE, fEco = False, fMaint = False, fStd = False, fQuitM = False,
      modeCur = STANDARD, modePrev = STANDARD, tV = 0, tR = 0,
      haveRTC = False, haveSD = False, enBME = True, enLUM = True,
      cfg = \<lparr>logMin = 0, toutSec = 0, maxBytes = 0, enMask = 0, crc = 0\<rparr>,
      logFile = None, logName = ''LOG000.CSV'', logIdx = 0,
      sBME_present = False, sLUM_present = True,
      baseColor = LED_W, ledBeatMs = 0, ledPhase = False,
      tickStd_t = 0, tickEco_t = 0,
      upd_last = LED_OFF, upd_lastE = 0xFF, upd_cur = 0,
      lastCmdMs = 0, cmdBuf = [], led_rgb = (0, 0, 0),
      eeprom = rom, sd_files = files, rtc_adjusted = None, serial = []\<rparr>"

definition initBME :: "env \<Rightarrow> state \<Rightarrow> state" where
  "initBME e s =
     (let ok = (bme_begin_0x76 e \<or> bme_begin_0x77 e)
      in s\<lparr>sBME_present := ok,
           serial := serial s @ [BmeDetected ok]\<rparr>)"

definition initLUM :: "state \<Rightarrow> state" where
  "initLUM s = s\<lparr>sLUM_present := True, serial := serial s @ [LumReady]\<rparr>"

definition setup_sketch :: "env \<Rightarrow> state \<Rightarrow> state" where
  "setup_sketch e s =
     (let s1 = loadEEPROM (setLed LED_W s);
          s2 = s1\<lparr>haveRTC := rtc_begin e\<rparr>;
          s3 = (if \<not> haveRTC s2
                then s2\<lparr>gErrors := gErrors s2 OR ERR_RTC, serial := serial s2 @ [RtcMissing]\<rparr>
                else s2);
          s4 = (if sd_begin e then snd (openNewLog e (s3\<lparr>haveSD := True\<rparr>))
                else s3\<lparr>haveSD := False, gErrors := gErrors s3 OR ERR_SD_RW,
                        serial := serial s3 @ [SdMissing]\<rparr>);
          s5 = initLUM (initBME e s4);
          s6 = (if \<not> sBME_present s5 \<and> enBME s5 then s5\<lparr>gErrors := gErrors s5 OR ERR_SENSOR\<rparr> else s5);
          s7 = (if digitalRead_BTN_R e = LOW then enterMode CONFIGURATION s6 else enterMode STANDARD s6)
      in s7\<lparr>serial := serial s7 @ [HelpHint]\<rparr>)"

fun serial_loop :: "env \<Rightarrow> string \<Rightarrow> state \<Rightarrow> state" where
  "serial_loop e [] s = s"
| "serial_loop e (c # cs) s =
     serial_loop e cs ((handleCmdChar e c s)\<lparr>lastCmdMs := ms_serial e\<rparr>)"

definition loop :: "env \<Rightarrow> state \<Rightarrow> state" where
  "loop e s =
     (let s1 = (if fEco s then enterMode ECONOMIQUE (s\<lparr>fEco := False\<rparr>) else s);
          s2 = (if fMaint s1 then enterMode MAINTENANCE (s1\<lparr>fMaint := False, modePrev := modeCur s1\<rparr>)
                else s1);
          s3 = (if fStd s2 then enterMode STANDARD (s2\<lparr>fStd := False\<rparr>) else s2);
          s4 = (if fQuitM s3 then enterMode (modePrev s3) (s3\<lparr>fQuitM := False\<rparr>) else s3);
          s5 = serial_loop e (serial_in e) s4;
          s6 = (case modeCur s5 of
                  STANDARD \<Rightarrow> tickStd e s5
                | ECONOMIQUE \<Rightarrow> tickEco e s5
                | MAINTENANCE \<Rightarrow> tickMaint s5
                | CONFIGURATION \<Rightarrow> tickCfg s5);
          s7 = (if modeCur s6 = CONFIGURATION \<and> CFG_BACK < ms_cfg e - lastCmdMs s6
                then enterMode STANDARD s6 else s6)
      in updateErrorLED (ms_led e) s7)"

section \<open>Observations and sample inputs used in the statements\<close>

text \<open>
  The order of precedence of the faults, highest first, as the comment above
  \<open>updateErrorLED\<close> and the specification give it.
\<close>

definition spec_priority :: "8 word list" where
  "spec_priority = [ERR_SD_RW, ERR_SD_FULL, ERR_RTC, ERR_SENSOR, ERR_INCOH]"

text \<open>
  The plausibility envelope in the specification's words: a reading is outside \<open>[lo, hi]\<close>
  when it is a number (not the invalid marker) that does not lie in the interval.
\<close>

definition outside_envelope :: "cfloat \<Rightarrow> real \<Rightarrow> real \<Rightarrow> bool" where
  "outside_envelope v lo hi =
     (case v of NaN \<Rightarrow> False | NegInf \<Rightarrow> True | PosInf \<Rightarrow> True | Fin x \<Rightarrow> x \<notin> {lo..hi})"

text \<open>The number of acquisition cycles run so far, read off the serial log.\<close>

fun is_measure :: "serial_out \<Rightarrow> bool" where
  "is_measure (MeasureLine d t h p l) = True"
| "is_measure _ = False"


text \<open>The hard-coded defaults with their integrity code, and an erased EEPROM.\<close>

definition defaults :: Settings where
  "defaults = \<lparr>logMin = 10, toutSec = 3, maxBytes = 2048, enMask = 3, crc = 0xA542\<rparr>"

definition rom_erased :: Settings where
  "rom_erased = \<lparr>logMin = 0xFFFF, toutSec = 0xFFFF, maxBytes = 0xFFFFFFFF, enMask = 0xFF, crc = 0xFFFF\<rparr>"

text \<open>A quiet environment: every peripheral present, readings in range, nothing on the serial port.\<close>

definition env_ok :: env where
  "env_ok = \<lparr>bme_temperature = Fin 20, bme_humidity = Fin 50, bme_pressure_hPa = Fin 1013,
     analogRead_LUM = 512,
     rtc_now = \<lparr>year = 2025, month = 10, day = 28, hour = 14, minute = 20, second = 0\<rparr>,
     sd_open_ok = (\<lambda>_. True), sd_write_ok = True, dtostrf = (\<lambda>_ _. ''0''),
     sscanf_date = (\<lambda>_. None), serial_in = [], ms_serial = 0, ms_tick = 0, ms_cfg = 0, ms_led = 0,
     rtc_begin = True, sd_begin = True, bme_begin_0x76 = True, bme_begin_0x77 = False,
     digitalRead_BTN_R = HIGH\<rparr>"

text \<open>The state once the boot sequence has opened the first log file on an empty card.\<close>

definition card_open :: state where
  "card_open =
     snd (openNewLog env_ok ((power_on rom_erased Map.empty)\<lparr>haveSD := True, cfg := defaults\<rparr>))"

text \<open>
  The stages of \<open>loop\<close>, named so that they can be reasoned about one at a time: the
  four flag blocks, the \<open>switch\<close> on the mode, and the Configuration time-out.
\<close>

definition apply_flags :: "state \<Rightarrow> state" where
  "apply_flags s =
     (let s1 = (if fEco s then enterMode ECONOMIQUE (s\<lparr>fEco := False\<rparr>) else s);
          s2 = (if fMaint s1 then enterMode MAINTENANCE (s1\<lparr>fMaint := False, modePrev := modeCur s1\<rparr>)
                else s1);
          s3 = (if fStd s2 then enterMode STANDARD (s2\<lparr>fStd := False\<rparr>) else s2)
      in if fQuitM s3 then enterMode (modePrev s3) (s3\<lparr>fQuitM := False\<rparr>) else s3)"

definition tick_mode :: "env \<Rightarrow> state \<Rightarrow> state" where
  "tick_mode e s =
     (case modeCur s of
        STANDARD \<Rightarrow> tickStd e s
      | ECONOMIQUE \<Rightarrow> tickEco e s
      | MAINTENANCE \<Rightarrow> tickMaint s
      | CONFIGURATION \<Rightarrow> tickCfg s)"

definition cfg_timeout :: "env \<Rightarrow> state \<Rightarrow> state" where
  "cfg_timeout e s =
     (if modeCur s = CONFIGURATION \<and> CFG_BACK < ms_cfg e - lastCmdMs s
      then enterMode STANDARD s else s)"

text \<open>
  \<open>keeps s s'\<close>: from \<open>s\<close> to \<open>s'\<close> the settings, the EEPROM, the sensor switches
  and the command buffer are unchanged and the serial output has only grown.
\<close>

definition keeps :: "state \<Rightarrow> state \<Rightarrow> bool" where
  "keeps s s' =
     (cfg s' = cfg s \<and> eeprom s' = eeprom s \<and> enBME s' = enBME s \<and> enLUM s' = enLUM s
      \<and> cmdBuf s' = cmdBuf s \<and> lastCmdMs s' = lastCmdMs s
      \<and> (\<exists>x. serial s' = serial s @ x))"

text \<open>
  The CSV record \<open>logOnce\<close> writes in state \<open>s\<close>, the bytes a file holds, and the
  state of \<open>logOnce\<close> when it reaches its card block (readings taken, fault flags
  updated, measurement printed).
\<close>

definition log_line :: "env \<Rightarrow> state \<Rightarrow> string" where
  "log_line e s = (case readBME e s of (t, h, p) \<Rightarrow> csv_line e s t h p (readLUM e s))"

definition content :: "state \<Rightarrow> string \<Rightarrow> string" where
  "content s nm = (case sd_files s nm of None \<Rightarrow> [] | Some c \<Rightarrow> c)"

definition measured :: "env \<Rightarrow> state \<Rightarrow> state" where
  "measured e s =
     (let (t, h, p) = readBME e s;
          l = readLUM e s;
          s1 = (if enBME s \<and> \<not> sBME_present s then s\<lparr>gErrors := gErrors s OR ERR_SENSOR\<rparr> else s);
          s2 = (if incoh_of t h p l then s1\<lparr>gErrors := gErrors s1 OR ERR_INCOH\<rparr>
                else s1\<lparr>gErrors := gErrors s1 AND NOT ERR_INCOH\<rparr>)
      in s2\<lparr>serial := serial s2 @ [MeasureLine (printDateTime e s2) t h p l]\<rparr>)"

text \<open>
  The state after a boot with the red button held (Configuration mode), and the state
  after a boot on an empty card once the rotation threshold has been set to \<open>n\<close>.
\<close>

definition config_boot :: state where
  "config_boot = enterMode CONFIGURATION (power_on rom_erased Map.empty)"

definition with_threshold :: "32 word \<Rightarrow> state" where
  "with_threshold n = card_open\<lparr>cfg := (cfg card_open)\<lparr>maxBytes := n\<rparr>\<rparr>"

lemmas ErrFlags_defs =
  ERR_NONE_def ERR_RTC_def ERR_SENSOR_def ERR_INCOH_def ERR_SD_FULL_def ERR_SD_RW_def

section \<open>Auxiliary facts\<close>

lemma crc16_crc_upd [simp]: "crc16 (c\<lparr>crc := x\<rparr>) = crc16 c"
  by (simp add: crc16_def payload_bytes_def)

lemma crc16_defaults:
  "logMin c = 10 \<Longrightarrow> toutSec c = 3 \<Longrightarrow> maxBytes c = 2048 \<Longrightarrow> enMask c = 3 \<Longrightarrow> crc16 c = 0xA542"
  by (simp add: crc16_def payload_bytes_def bytes16_def bytes32_def)

lemma and8_simps:
  "((g::8 word) OR 8) AND 8 = 8"
  "(g AND - 9) AND 8 = 0"
  "(g OR 16) AND 8 = g AND 8"
  "(g AND - 17) AND 8 = g AND 8"
  "(g OR 32) AND 8 = g AND 8"
  "(g AND - 33) AND 8 = g AND 8"
  "(g OR 4) AND 8 = g AND 8"
  by (simp_all add: bit.conj_disj_distrib2 and.assoc)

lemma unat_ucast_16_32: "unat (ucast (w :: 16 word) :: 32 word) = unat w"
proof -
  have "unat w < 2 ^ 16" using unsigned_less [of w, where 'a = nat] by simp
  then have "unat w < 2 ^ 32" by simp
  then show ?thesis by (simp add: unsigned_ucast_eq take_bit_nat_eq_self)
qed




lemma file_print_frame:
  "cfg (file_print e txt s) = cfg s" "serial (file_print e txt s) = serial s"
  "gErrors (file_print e txt s) = gErrors s" "logFile (file_print e txt s) = logFile s"
  "logIdx (file_print e txt s) = logIdx s"
  "tickStd_t (file_print e txt s) = tickStd_t s" "tickEco_t (file_print e txt s) = tickEco_t s"
  "modeCur (file_print e txt s) = modeCur s" "eeprom (file_print e txt s) = eeprom s"
  "lastCmdMs (file_print e txt s) = lastCmdMs s"
  by (simp_all add: file_print_def split: option.splits)

lemma openNewLog_frame:
  "cfg (snd (openNewLog e s)) = cfg s"
  "tickStd_t (snd (openNewLog e s)) = tickStd_t s" "tickEco_t (snd (openNewLog e s)) = tickEco_t s"
  "modeCur (snd (openNewLog e s)) = modeCur s" "eeprom (snd (openNewLog e s)) = eeprom s"
  "lastCmdMs (snd (openNewLog e s)) = lastCmdMs s"
  "filter is_measure (serial (snd (openNewLog e s))) = filter is_measure (serial s)"
  "gErrors (snd (openNewLog e s)) AND 8 = gErrors s AND 8"
  by (simp_all add: openNewLog_def Let_def file_print_frame and8_simps ErrFlags_defs)

lemma rotateIfNeed_frame:
  "cfg (rotateIfNeed e s) = cfg s"
  "tickStd_t (rotateIfNeed e s) = tickStd_t s" "tickEco_t (rotateIfNeed e s) = tickEco_t s"
  "modeCur (rotateIfNeed e s) = modeCur s" "eeprom (rotateIfNeed e s) = eeprom s"
  "lastCmdMs (rotateIfNeed e s) = lastCmdMs s"
  "filter is_measure (serial (rotateIfNeed e s)) = filter is_measure (serial s)"
  "gErrors (rotateIfNeed e s) AND 8 = gErrors s AND 8"
  by (simp_all add: rotateIfNeed_def openNewLog_frame split: option.splits)

lemma logOnce_frame:
  "cfg (logOnce e s) = cfg s"
  "tickStd_t (logOnce e s) = tickStd_t s" "tickEco_t (logOnce e s) = tickEco_t s"
  "modeCur (logOnce e s) = modeCur s" "eeprom (logOnce e s) = eeprom s"
  "lastCmdMs (logOnce e s) = lastCmdMs s"
  "length (filter is_measure (serial (logOnce e s))) = Suc (length (filter is_measure (serial s)))"
  by (simp_all add: logOnce_def Let_def rotateIfNeed_frame file_print_frame split: prod.splits)

lemma logOnce_incoh:
  "gErrors (logOnce e s) AND 8 = (if incoh_of (fst (readBME e s)) (fst (snd (readBME e s))) (snd (snd (readBME e s))) (readLUM e s) then 8 else 0)"
  by (simp add: logOnce_def Let_def rotateIfNeed_frame file_print_frame and8_simps ErrFlags_defs split: prod.splits)

lemma select_err_idem: "select_err (select_err g) = select_err g"
  by (simp add: select_err_def ErrFlags_defs)

lemma select_err_nz: "select_err g \<noteq> 0"
  by (simp add: select_err_def ErrFlags_defs)

lemma outside_iff:
  "outside_envelope v lo hi = (\<not> isnan v \<and> (flt_less v lo \<or> flt_greater v hi))"
  by (cases v) (auto simp: outside_envelope_def)

lemma and32_simps:
  "((g::8 word) OR 32) AND 32 = 32"
  by (simp_all add: bit.conj_disj_distrib2 and.assoc)

lemma logOnce_closed:
  "logFile s = None \<Longrightarrow>
     logFile (logOnce e s) = None \<and> sd_files (logOnce e s) = sd_files s
     \<and> logIdx (logOnce e s) = logIdx s \<and> gErrors (logOnce e s) AND ERR_SD_RW \<noteq> 0"
  by (simp add: logOnce_def Let_def and32_simps ERR_SD_RW_def split: prod.splits)

lemma fold_logOnce_closed:
  "logFile s = None \<Longrightarrow>
     logFile (fold logOnce es s) = None \<and> sd_files (fold logOnce es s) = sd_files s
     \<and> logIdx (fold logOnce es s) = logIdx s"
  by (induction es arbitrary: s) (simp_all add: logOnce_closed)

lemma log_name_0: "log_name 0 = ''LOG000.CSV''"
  by code_simp

lemma card_open_fields:
  "logFile card_open = Some ''LOG000.CSV''" "logIdx card_open = 1" "haveSD card_open"
  "sd_files card_open ''LOG000.CSV'' = Some csv_header"
  by (simp_all add: card_open_def openNewLog_def Let_def power_on_def log_name_0 env_ok_def
       fsize_def file_print_def)

lemma handleCmdLine_frame:
  "modeCur (handleCmdLine e s) = modeCur s" "lastCmdMs (handleCmdLine e s) = lastCmdMs s"
  by (simp_all add: handleCmdLine_def Let_def println_def showHelp_def saveEEPROM_def setDefaults_def
        logOnce_frame split: option.splits prod.splits)

lemma handleCmdChar_modeCur: "modeCur (handleCmdChar e c s) = modeCur s"
  by (simp add: handleCmdChar_def handleCmdLine_frame)

lemma serial_loop_modeCur: "modeCur (serial_loop e cs s) = modeCur s"
  by (induction cs arbitrary: s) (simp_all add: handleCmdChar_modeCur)

lemma serial_loop_lastCmdMs:
  "lastCmdMs (serial_loop e cs s) = (if cs = [] then lastCmdMs s else ms_serial e)"
  by (induction cs arbitrary: s) simp_all

lemma updateErrorLED_modeCur: "modeCur (updateErrorLED now s) = modeCur s"
  by (simp add: updateErrorLED_def Let_def setLed_def split: prod.splits)

subsection \<open>The error display\<close>

lemma pattern_table:
  "map pattern spec_priority =
     [(LED_R, LED_W, 220, 600), (LED_R, LED_W, 360, 360), (LED_R, LED_B, 360, 360),
      (LED_R, LED_G, 360, 360), (LED_R, LED_G, 220, 600)]"
  by (simp add: spec_priority_def pattern_def ErrFlags_defs)

lemma updateErrorLED_fault:
  assumes nz: "gErrors s \<noteq> 0" and p: "pattern (select_err (gErrors s)) = (a, b, ha, hb)"
  shows "if upd_lastE s \<noteq> select_err (gErrors s)
      then updateErrorLED now s
             = s\<lparr>upd_lastE := select_err (gErrors s), ledPhase := False, ledBeatMs := now,
                 upd_cur := ha, led_rgb := rgb a\<rparr>
      else if unat (upd_cur s) \<le> unat (now - ledBeatMs s)
      then updateErrorLED now s
             = s\<lparr>ledBeatMs := now, ledPhase := \<not> ledPhase s,
                 led_rgb := rgb (if ledPhase s then a else b),
                 upd_cur := (if ledPhase s then ha else hb)\<rparr>
      else updateErrorLED now s = s"
  using nz p
  by (simp add: updateErrorLED_def ERR_NONE_def Let_def setLed_def word_le_nat_alt unat_ucast_16_32)

subsection \<open>The stages of the main loop\<close>

lemma loop_stages:
  "loop e s =
     updateErrorLED (ms_led e) (cfg_timeout e (tick_mode e (serial_loop e (serial_in e) (apply_flags s))))"
  by (simp add: loop_def apply_flags_def tick_mode_def cfg_timeout_def Let_def)

lemma keeps_refl: "keeps s s"
  by (simp add: keeps_def)

lemma keeps_trans: "keeps a b \<Longrightarrow> keeps b c \<Longrightarrow> keeps a c"
  by (auto simp: keeps_def)

lemma keeps_enterMode: "keeps s (enterMode m s)"
  by (simp add: keeps_def enterMode_def setLed_def)



lemma keeps_file_print: "keeps s (file_print e txt s)"
  by (simp add: keeps_def file_print_def split: option.splits)

lemma keeps_openNewLog: "keeps s (snd (openNewLog e s))"
  by (simp add: keeps_def openNewLog_def Let_def file_print_def split: option.splits)

lemma keeps_rotateIfNeed: "keeps s (rotateIfNeed e s)"
  by (simp add: rotateIfNeed_def keeps_openNewLog keeps_refl split: option.splits)

lemma keeps_upd:
  "keeps s u \<Longrightarrow> keeps s (u\<lparr>gErrors := g\<rparr>)"
  "keeps s u \<Longrightarrow> keeps s (u\<lparr>serial := serial u @ x\<rparr>)"
  "keeps s u \<Longrightarrow> keeps s (u\<lparr>tickStd_t := w\<rparr>)"
  "keeps s u \<Longrightarrow> keeps s (u\<lparr>tickEco_t := w\<rparr>)"
  "keeps s u \<Longrightarrow> keeps s (u\<lparr>gErrors := g, serial := serial u @ x\<rparr>)"
  by (auto simp: keeps_def)

lemma keeps_file_print': "keeps s u \<Longrightarrow> keeps s (file_print e txt u)"
  by (rule keeps_trans [OF _ keeps_file_print])

lemma keeps_rotateIfNeed': "keeps s u \<Longrightarrow> keeps s (rotateIfNeed e u)"
  by (rule keeps_trans [OF _ keeps_rotateIfNeed])

lemmas keeps_step = keeps_upd keeps_file_print' keeps_rotateIfNeed'

lemma keeps_logOnce': "keeps s u \<Longrightarrow> keeps s (logOnce e u)"
  by (auto simp: logOnce_def Let_def split: prod.splits intro!: keeps_step)

lemma keeps_logOnce: "keeps s (logOnce e s)"
  by (rule keeps_logOnce' [OF keeps_refl])


lemma keeps_cfg_timeout: "keeps s (cfg_timeout e s)"
  by (simp add: cfg_timeout_def keeps_enterMode keeps_refl)

lemma keeps_updateErrorLED: "keeps s (updateErrorLED now s)"
  by (simp add: keeps_def updateErrorLED_def Let_def setLed_def split: prod.splits)


lemma serial_loop_chars:
  "\<forall>c\<in>set l. c \<noteq> CHR 0x0D \<and> c \<noteq> CHR 0x0A \<Longrightarrow> length (cmdBuf s) + length l \<le> 95 \<Longrightarrow>
   serial_loop e (l @ rest) s =
     serial_loop e rest
       (s\<lparr>cmdBuf := cmdBuf s @ l, lastCmdMs := (if l = [] then lastCmdMs s else ms_serial e)\<rparr>)"
proof (induction l arbitrary: s)
  case Nil
  then show ?case by simp
next
  case (Cons c l)
  then have "handleCmdChar e c s = s\<lparr>cmdBuf := cmdBuf s @ [c]\<rparr>"
    by (simp add: handleCmdChar_def)
  with Cons show ?case by simp
qed





lemma updateErrorLED_serial: "serial (updateErrorLED now s) = serial s"
  by (simp add: updateErrorLED_def Let_def setLed_def split: prod.splits)

lemma apply_flags_idle:
  "\<not> fEco s \<Longrightarrow> \<not> fMaint s \<Longrightarrow> \<not> fStd s \<Longrightarrow> \<not> fQuitM s \<Longrightarrow> apply_flags s = s"
  by (simp add: apply_flags_def)

lemma loop_config_pass:
  assumes "modeCur s = CONFIGURATION" "\<not> fEco s" "\<not> fMaint s" "\<not> fStd s" "\<not> fQuitM s"
  shows "modeCur (loop e s) =
     (if 30000 < unat (ms_cfg e - (if serial_in e = [] then lastCmdMs s else ms_serial e))
      then STANDARD else CONFIGURATION)
   \<and> lastCmdMs (loop e s) = (if serial_in e = [] then lastCmdMs s else ms_serial e)"
proof -
  let ?u = "serial_loop e (serial_in e) s"
  have m: "modeCur ?u = CONFIGURATION" by (simp add: serial_loop_modeCur assms(1))
  have l: "lastCmdMs ?u = (if serial_in e = [] then lastCmdMs s else ms_serial e)"
    by (rule serial_loop_lastCmdMs)
  have t: "tick_mode e ?u = ?u" by (simp add: tick_mode_def m tickCfg_def)
  have c: "modeCur (cfg_timeout e ?u) =
      (if 30000 < unat (ms_cfg e - lastCmdMs ?u) then STANDARD else CONFIGURATION)"
    by (simp add: cfg_timeout_def m enterMode_def setLed_def CFG_BACK_def word_less_nat_alt)
  have k: "lastCmdMs (updateErrorLED (ms_led e) (cfg_timeout e ?u)) = lastCmdMs ?u"
    using keeps_trans [OF keeps_cfg_timeout [of ?u e] keeps_updateErrorLED [of "cfg_timeout e ?u" "ms_led e"]]
    by (simp add: keeps_def)
  show ?thesis
    by (simp only: loop_stages apply_flags_idle [OF assms(2-5)] t updateErrorLED_modeCur c k l)
qed

lemma config_boot_fields:
  "modeCur config_boot = CONFIGURATION" "\<not> fEco config_boot" "\<not> fMaint config_boot"
  "\<not> fStd config_boot" "\<not> fQuitM config_boot" "lastCmdMs config_boot = 0" "cmdBuf config_boot = []"
  by (simp_all add: config_boot_def enterMode_def power_on_def setLed_def)


subsection \<open>File names\<close>

lemma fsize_content: "fsize s nm = length (content s nm)"
  by (simp add: fsize_def content_def split: option.splits)

lemma length_dec_digits [simp]: "length (dec_digits k n) = k"
  by (induction k arbitrary: n) simp_all

lemma dec_digits_inj:
  "n < 10 ^ k \<Longrightarrow> m < 10 ^ k \<Longrightarrow> dec_digits k n = dec_digits k m \<Longrightarrow> n = m"
proof (induction k arbitrary: n m)
  case 0
  then show ?case by simp
next
  case (Suc k)
  from Suc.prems(3) have a: "dec_digits k (n div 10) = dec_digits k (m div 10)"
    and b: "(48 + n mod 10) mod 256 = (48 + m mod 10) mod 256"
    by simp_all
  have "n < 10 ^ k * 10" "m < 10 ^ k * 10" using Suc.prems(1,2) by simp_all
  then have "n div 10 < 10 ^ k" "m div 10 < 10 ^ k" by (simp_all only: less_mult_imp_div_less)
  with a Suc.IH have d: "n div 10 = m div 10" by blast
  have "n mod 10 < 10" "m mod 10 < 10" by simp_all
  then have "48 + n mod 10 < 256" "48 + m mod 10 < 256" by linarith+
  with b have r: "n mod 10 = m mod 10" by simp
  have "n = n div 10 * 10 + n mod 10" "m = m div 10 * 10 + m mod 10" by simp_all
  with d r show ?case by simp
qed

lemma ndigits_bound: "n < 65536 \<Longrightarrow> n < 10 ^ max 3 (ndigits n)"
  by (auto simp: ndigits_def max_def)

lemma fmt_u3_inj:
  assumes "n < 65536" "m < 65536" "fmt_u 3 n = fmt_u 3 m"
  shows "n = m"
proof -
  from assms(3) have "length (fmt_u 3 n) = length (fmt_u 3 m)" by simp
  then have k: "max 3 (ndigits n) = max 3 (ndigits m)" by (simp add: fmt_u_def)
  from assms(3) have "dec_digits (max 3 (ndigits n)) n = dec_digits (max 3 (ndigits n)) m"
    by (simp add: fmt_u_def k)
  moreover have "n < 10 ^ max 3 (ndigits n)" by (rule ndigits_bound [OF assms(1)])
  moreover have "m < 10 ^ max 3 (ndigits n)" unfolding k by (rule ndigits_bound [OF assms(2)])
  ultimately show ?thesis by (rule dec_digits_inj [rotated 2])
qed

lemma log_name_eq: "log_name i = ''LOG'' @ fmt_u 3 (unat i) @ ''.CSV''"
proof -
  have "length (fmt_u 3 (unat i)) \<le> 5" by (simp add: fmt_u_def ndigits_def)
  then show ?thesis by (simp add: log_name_def)
qed

lemma log_name_inj: "log_name i = log_name j \<Longrightarrow> i = j"
proof -
  assume "log_name i = log_name j"
  then have "fmt_u 3 (unat i) = fmt_u 3 (unat j)" by (simp add: log_name_eq)
  moreover have "unat i < 65536" "unat j < 65536"
    using unsigned_less [of i, where 'a = nat] unsigned_less [of j, where 'a = nat] by simp_all
  ultimately have "unat i = unat j" by (blast intro: fmt_u3_inj)
  then show ?thesis by (simp add: word_unat_eq_iff)
qed

lemma log_name_succ: "log_name (i + 1) \<noteq> log_name i"
  using log_name_inj [of "i + 1" i] by auto

subsection \<open>Writing a record and rotating\<close>

lemma unat_of_nat_32: "n < 2 ^ 32 \<Longrightarrow> unat (word_of_nat n :: 32 word) = n"
  by (simp add: unat_of_nat)

lemma measured_frame:
  "haveSD (measured e s) = haveSD s" "logFile (measured e s) = logFile s"
  "logIdx (measured e s) = logIdx s" "sd_files (measured e s) = sd_files s"
  "cfg (measured e s) = cfg s" "logName (measured e s) = logName s"
  by (simp_all add: measured_def Let_def split: prod.splits)

lemma logOnce_sd:
  assumes "haveSD s" "logFile s = Some nm"
  shows "logOnce e s =
     (let s5 = rotateIfNeed e (file_print e (log_line e s) (measured e s))
      in s5\<lparr>gErrors := gErrors s5 AND NOT ERR_SD_RW\<rparr>)"
  using assms
  by (simp add: logOnce_def measured_def log_line_def csv_line_def printDateTime_def Let_def split: prod.splits)

lemma file_print_open:
  assumes "logFile u = Some nm" "sd_write_ok e"
  shows "file_print e txt u = u\<lparr>sd_files := (sd_files u)(nm \<mapsto> content u nm @ txt)\<rparr>"
  using assms by (simp add: file_print_def content_def)

lemma rotateIfNeed_cases:
  assumes "logFile u = Some nm" "fsize u nm < 2 ^ 32"
  shows "rotateIfNeed e u = (if unat (maxBytes (cfg u)) \<le> fsize u nm then snd (openNewLog e u) else u)"
  using assms by (simp add: rotateIfNeed_def word_le_nat_alt unat_of_nat_32)

lemma and16_simps:
  "((g::8 word) OR 16) AND 16 = 16" "(g AND - 17) AND 16 = 0" "(g AND - 33) AND 16 = g AND 16"
  by (simp_all add: bit.conj_disj_distrib2 and.assoc)

lemma openNewLog_open:
  assumes "logFile u = Some nm"
  shows "logIdx (snd (openNewLog e u)) = logIdx u + 1"
    and "logName (snd (openNewLog e u)) = log_name (logIdx u)"
    and "sd_open_ok e (log_name (logIdx u)) \<Longrightarrow>
           logFile (snd (openNewLog e u)) = Some (log_name (logIdx u))
           \<and> gErrors (snd (openNewLog e u)) AND ERR_SD_FULL = 0"
    and "\<not> sd_open_ok e (log_name (logIdx u)) \<Longrightarrow>
           logFile (snd (openNewLog e u)) = None
           \<and> gErrors (snd (openNewLog e u)) AND ERR_SD_FULL \<noteq> 0"
    and "k \<noteq> log_name (logIdx u) \<Longrightarrow> sd_files (snd (openNewLog e u)) k = sd_files u k"
    and "haveSD (snd (openNewLog e u)) = haveSD u" and "cfg (snd (openNewLog e u)) = cfg u"
  using assms
  by (simp_all add: openNewLog_def Let_def file_print_def fsize_def and16_simps ERR_SD_FULL_def
        split: option.splits)

lemma rotateIfNeed_open:
  assumes "logFile u = Some nm"
  shows "rotateIfNeed e u = u \<or> rotateIfNeed e u = snd (openNewLog e u)"
  using assms by (simp add: rotateIfNeed_def)

lemma logOnce_appends:
  assumes "haveSD s" "logFile s = Some (log_name j)" "logIdx s = j + 1" "sd_write_ok e"
  shows "content (logOnce e s) (log_name j) = content s (log_name j) @ log_line e s"
proof -
  let ?m = "measured e s"
  let ?u = "file_print e (log_line e s) ?m"
  have m: "logFile ?m = Some (log_name j)" by (simp add: measured_frame assms(2))
  have u: "?u = ?m\<lparr>sd_files := (sd_files ?m)(log_name j \<mapsto> content ?m (log_name j) @ log_line e s)\<rparr>"
    by (rule file_print_open [OF m assms(4)])
  have cm: "content ?m (log_name j) = content s (log_name j)" by (simp add: content_def measured_frame)
  have cu: "content ?u (log_name j) = content s (log_name j) @ log_line e s"
    by (simp add: u content_def cm [unfolded content_def])
  have lu: "logFile ?u = Some (log_name j)" "logIdx ?u = j + 1"
    by (simp_all add: u measured_frame assms)
  have "log_name j \<noteq> log_name (logIdx ?u)" using log_name_succ [of j] by (simp add: lu)
  then have "sd_files (snd (openNewLog e ?u)) (log_name j) = sd_files ?u (log_name j)"
    by (rule openNewLog_open(5) [OF lu(1), where e = e])
  then have "content (snd (openNewLog e ?u)) (log_name j) = content ?u (log_name j)"
    by (simp add: content_def)
  with rotateIfNeed_open [OF lu(1), where e = e]
  have r: "content (rotateIfNeed e ?u) (log_name j) = content ?u (log_name j)" by auto
  have "logOnce e s = (rotateIfNeed e ?u)\<lparr>gErrors := gErrors (rotateIfNeed e ?u) AND NOT ERR_SD_RW\<rparr>"
    by (simp add: logOnce_sd [OF assms(1,2)] Let_def)
  then have "content (logOnce e s) (log_name j) = content (rotateIfNeed e ?u) (log_name j)"
    by (simp add: content_def)
  with r cu show ?thesis by simp
qed

lemma logOnce_rotation:
  assumes sd: "haveSD s" and op: "logFile s = Some (log_name i)" and idx: "logIdx s = i + 1"
    and wr: "sd_write_ok e"
    and small: "fsize s (log_name i) + length (log_line e s) < 2 ^ 32"
    and thr: "unat (maxBytes (cfg s)) \<le> fsize s (log_name i) + length (log_line e s)"
  shows "(let s' = logOnce e s in
      content s' (log_name i) = content s (log_name i) @ log_line e s
    \<and> (fsize s (log_name i) < unat (maxBytes (cfg s))
        \<longrightarrow> fsize s' (log_name i) < unat (maxBytes (cfg s)) + length (log_line e s))
    \<and> logIdx s' = i + 2 \<and> logName s' = log_name (i + 1) \<and> log_name (i + 1) \<noteq> log_name i
    \<and> (i \<noteq> 0xFFFF \<longrightarrow> unat (i + 1) = unat i + 1)
    \<and> (if sd_open_ok e (log_name (i + 1))
        then logFile s' = Some (log_name (i + 1)) \<and> gErrors s' AND ERR_SD_FULL = 0
             \<and> (\<forall>e2. sd_write_ok e2 \<longrightarrow>
                   content (logOnce e2 s') (log_name (i + 1))
                     = content s' (log_name (i + 1)) @ log_line e2 s')
        else logFile s' = None \<and> gErrors s' AND ERR_SD_FULL \<noteq> 0
             \<and> (\<forall>e2. sd_files (logOnce e2 s') = sd_files s')))"
proof -
  let ?m = "measured e s"
  let ?u = "file_print e (log_line e s) ?m"
  let ?s' = "logOnce e s"
  have m: "logFile ?m = Some (log_name i)" by (simp add: measured_frame op)
  have u: "?u = ?m\<lparr>sd_files := (sd_files ?m)(log_name i \<mapsto> content ?m (log_name i) @ log_line e s)\<rparr>"
    by (rule file_print_open [OF m wr])
  have lu: "logFile ?u = Some (log_name i)" "logIdx ?u = i + 1" "cfg ?u = cfg s" "haveSD ?u"
    by (simp_all add: u measured_frame op idx sd)
  have fu: "fsize ?u (log_name i) = fsize s (log_name i) + length (log_line e s)"
    by (simp add: u fsize_def content_def measured_frame split: option.splits)
  have r: "rotateIfNeed e ?u = snd (openNewLog e ?u)"
    using rotateIfNeed_cases [OF lu(1), where e = e] small thr by (simp add: fu lu(3))
  have s': "?s' = (snd (openNewLog e ?u))\<lparr>gErrors := gErrors (snd (openNewLog e ?u)) AND NOT ERR_SD_RW\<rparr>"
    by (simp add: logOnce_sd [OF sd op] Let_def r)
  note o = openNewLog_open [OF lu(1), where e = e, unfolded lu(2)]
  have c: "content ?s' (log_name i) = content s (log_name i) @ log_line e s"
    by (rule logOnce_appends [OF sd op idx wr])
  then have f: "fsize ?s' (log_name i) = fsize s (log_name i) + length (log_line e s)"
    by (simp add: fsize_content)
  have i2: "logIdx ?s' = i + 2" "logName ?s' = log_name (i + 1)" "haveSD ?s'"
    by (simp_all add: s' o lu(4))
  have w: "i \<noteq> 0xFFFF \<longrightarrow> unat (i + 1) = unat i + 1"
  proof
    assume "i \<noteq> 0xFFFF"
    then have "unat i \<noteq> 65535" by (simp add: word_unat_eq_iff)
    moreover have "unat i < 65536" using unsigned_less [of i, where 'a = nat] by simp
    ultimately have "unat i + unat (1 :: 16 word) < 2 ^ LENGTH(16)" by simp
    then show "unat (i + 1) = unat i + 1" by (simp only: unat_add_lem) simp
  qed
  have b: "if sd_open_ok e (log_name (i + 1))
        then logFile ?s' = Some (log_name (i + 1)) \<and> gErrors ?s' AND ERR_SD_FULL = 0
             \<and> (\<forall>e2. sd_write_ok e2 \<longrightarrow>
                   content (logOnce e2 ?s') (log_name (i + 1))
                     = content ?s' (log_name (i + 1)) @ log_line e2 ?s')
        else logFile ?s' = None \<and> gErrors ?s' AND ERR_SD_FULL \<noteq> 0
             \<and> (\<forall>e2. sd_files (logOnce e2 ?s') = sd_files ?s')"
  proof (cases "sd_open_ok e (log_name (i + 1))")
    case True
    from o(3) [OF True] have lf: "logFile ?s' = Some (log_name (i + 1))" "gErrors ?s' AND ERR_SD_FULL = 0"
      by (simp_all add: s' and16_simps ERR_SD_FULL_def ERR_SD_RW_def)
    have "logIdx ?s' = (i + 1) + 1" by (simp add: i2)
    from logOnce_appends [OF i2(3) lf(1) this]
    have "\<forall>e2. sd_write_ok e2 \<longrightarrow>
                   content (logOnce e2 ?s') (log_name (i + 1))
                     = content ?s' (log_name (i + 1)) @ log_line e2 ?s'" by blast
    with True lf show ?thesis by simp
  next
    case False
    from o(4) [OF False] have lf: "logFile ?s' = None" "gErrors ?s' AND ERR_SD_FULL \<noteq> 0"
      by (simp_all add: s' and16_simps ERR_SD_FULL_def ERR_SD_RW_def)
    from logOnce_closed [OF lf(1)] have "\<forall>e2. sd_files (logOnce e2 ?s') = sd_files ?s'" by blast
    with False lf show ?thesis by simp
  qed
  show ?thesis
    unfolding Let_def using c f i2(1,2) log_name_succ [of i] w b by (intro conjI impI) simp_all
qed

lemma log_name_1: "log_name 1 = ''LOG001.CSV''"
  by code_simp

lemma card_open_more:
  "\<not> sBME_present card_open" "enLUM card_open" "\<not> haveRTC card_open" "cfg card_open = defaults"
  by (simp_all add: card_open_def openNewLog_def Let_def power_on_def env_ok_def file_print_def
        fsize_def split: option.splits)

lemma with_threshold_fields:
  "haveSD (with_threshold n)" "logFile (with_threshold n) = Some (log_name 0)"
  "logIdx (with_threshold n) = 0 + 1" "fsize (with_threshold n) (log_name 0) = 29"
  "maxBytes (cfg (with_threshold n)) = n"
  by (simp_all add: with_threshold_def card_open_fields log_name_0 fsize_def csv_header_def CRLF_def)

lemma log_line_with_threshold:
  "log_line (env_ok\<lparr>sd_open_ok := f\<rparr>) (with_threshold n) = ''NA;NA;NA;NA;0'' @ CRLF"
  by (simp add: log_line_def with_threshold_def readBME_def readLUM_def csv_line_def printDateTime_def
        printNum_def card_open_more env_ok_def)

lemma env_ok_sd: "sd_write_ok env_ok" "sd_open_ok env_ok = (\<lambda>_. True)"
  "env_ok\<lparr>sd_open_ok := \<lambda>_. True\<rparr> = env_ok"
  by (simp_all add: env_ok_def)

lemma logOnce_stays:
  assumes sd: "haveSD s" and op: "logFile s = Some (log_name i)" and idx: "logIdx s = i + 1"
    and wr: "sd_write_ok e"
    and small: "fsize s (log_name i) + length (log_line e s) < 2 ^ 32"
    and thr: "\<not> unat (maxBytes (cfg s)) \<le> fsize s (log_name i) + length (log_line e s)"
  shows "logFile (logOnce e s) = Some (log_name i) \<and> logIdx (logOnce e s) = i + 1"
proof -
  let ?m = "measured e s"
  let ?u = "file_print e (log_line e s) ?m"
  have m: "logFile ?m = Some (log_name i)" by (simp add: measured_frame op)
  have u: "?u = ?m\<lparr>sd_files := (sd_files ?m)(log_name i \<mapsto> content ?m (log_name i) @ log_line e s)\<rparr>"
    by (rule file_print_open [OF m wr])
  have lu: "logFile ?u = Some (log_name i)" "logIdx ?u = i + 1" "cfg ?u = cfg s"
    by (simp_all add: u measured_frame op idx)
  have fu: "fsize ?u (log_name i) = fsize s (log_name i) + length (log_line e s)"
    by (simp add: u fsize_def content_def measured_frame split: option.splits)
  have r: "rotateIfNeed e ?u = ?u"
    using rotateIfNeed_cases [OF lu(1), where e = e] small thr by (simp add: fu lu(3))
  have "logOnce e s = ?u\<lparr>gErrors := gErrors ?u AND NOT ERR_SD_RW\<rparr>"
    by (simp add: logOnce_sd [OF sd op] Let_def r)
  then show ?thesis by (simp add: lu)
qed

section \<open>The error display\<close>

text \<open>
  Claim C1, as amended. For every non-empty fault set passed to \<open>updateErrorLED\<close>,
  exactly one fault is selected by the order Storage-read-write-error > Storage-full >
  RTC-absent > Sensor-missing > Incoherent-reading (the first flag of that order that is
  set), and the call drives only that fault's two-colour pattern, whatever
  lower-priority faults are set as well: it behaves as if the selected fault were the
  only one. When the selected fault differs from the one last displayed, the call
  restarts the pattern on its first colour with its first half period; when the current
  half period has elapsed, it switches to the pattern's other colour and half period;
  otherwise it changes nothing, so that a colour painted meanwhile by a mode entry stays
  until the pattern's next switch. The five patterns are those of the table.
\<close>

theorem updateErrorLED_priority:
  assumes h: "\<exists>f \<in> set spec_priority. gErrors s AND f \<noteq> 0"
  shows "case pattern (select_err (gErrors s)) of (colA, colB, halfA, halfB) \<Rightarrow>
      find (\<lambda>f. gErrors s AND f \<noteq> 0) spec_priority = Some (select_err (gErrors s))
    \<and> (if upd_lastE s \<noteq> select_err (gErrors s)
        then updateErrorLED now s
               = s\<lparr>upd_lastE := select_err (gErrors s), ledPhase := False, ledBeatMs := now,
                   upd_cur := halfA, led_rgb := rgb colA\<rparr>
        else if unat (upd_cur s) \<le> unat (now - ledBeatMs s)
        then updateErrorLED now s
               = s\<lparr>ledBeatMs := now, ledPhase := \<not> ledPhase s,
                   led_rgb := rgb (if ledPhase s then colA else colB),
                   upd_cur := (if ledPhase s then halfA else halfB)\<rparr>
        else updateErrorLED now s = s)
    \<and> updateErrorLED now s
        = (updateErrorLED now (s\<lparr>gErrors := select_err (gErrors s)\<rparr>))\<lparr>gErrors := gErrors s\<rparr>
    \<and> map pattern spec_priority =
         [(LED_R, LED_W, 220, 600), (LED_R, LED_W, 360, 360), (LED_R, LED_B, 360, 360),
          (LED_R, LED_G, 360, 360), (LED_R, LED_G, 220, 600)]"
proof -
  from h have nz: "gErrors s \<noteq> 0" by auto
  from h have f: "find (\<lambda>f. gErrors s AND f \<noteq> 0) spec_priority = Some (select_err (gErrors s))"
    by (auto simp: spec_priority_def select_err_def ErrFlags_defs)
  from nz have o: "updateErrorLED now s
        = (updateErrorLED now (s\<lparr>gErrors := select_err (gErrors s)\<rparr>))\<lparr>gErrors := gErrors s\<rparr>"
    by (simp add: updateErrorLED_def select_err_idem select_err_nz ERR_NONE_def Let_def setLed_def
          split: prod.splits)
  obtain a b ha hb where p: "pattern (select_err (gErrors s)) = (a, b, ha, hb)"
    by (cases "pattern (select_err (gErrors s))")
  note l = updateErrorLED_fault [OF nz p, of now]
  show ?thesis unfolding p prod.case using f o l pattern_table by blast
qed

theorem updateErrorLED_priority_witness:
  "(\<exists>f \<in> set spec_priority. gErrors ((power_on rom_erased Map.empty)\<lparr>gErrors := ERR_SENSOR OR ERR_SD_FULL\<rparr>) AND f \<noteq> 0)
   \<and> upd_lastE (updateErrorLED 5 ((power_on rom_erased Map.empty)\<lparr>gErrors := ERR_SENSOR OR ERR_SD_FULL\<rparr>)) = ERR_SD_FULL
   \<and> led_rgb (updateErrorLED 5 ((power_on rom_erased Map.empty)\<lparr>gErrors := ERR_SENSOR OR ERR_SD_FULL\<rparr>)) = rgb LED_R"
proof -
  let ?s = "(power_on rom_erased Map.empty)\<lparr>gErrors := ERR_SENSOR OR ERR_SD_FULL\<rparr>"
  have h: "\<exists>f \<in> set spec_priority. gErrors ?s AND f \<noteq> 0"
    by (simp add: spec_priority_def ErrFlags_defs)
  have p: "select_err (gErrors ?s) = ERR_SD_FULL" by (simp add: select_err_def ErrFlags_defs)
  have q: "upd_lastE ?s \<noteq> ERR_SD_FULL" by (simp add: power_on_def ErrFlags_defs)
  have r: "pattern ERR_SD_FULL = (LED_R, LED_W, 360, 360)" by (simp add: pattern_def ErrFlags_defs)
  note c = updateErrorLED_priority [OF h, of 5, unfolded p r prod.case if_P [OF q]]
  from c have e: "updateErrorLED 5 ?s
      = ?s\<lparr>upd_lastE := ERR_SD_FULL, ledPhase := False, ledBeatMs := 5, upd_cur := 360, led_rgb := rgb LED_R\<rparr>"
    by blast
  have "upd_lastE (updateErrorLED 5 ?s) = ERR_SD_FULL" "led_rgb (updateErrorLED 5 ?s) = rgb LED_R"
    unfolding e by simp_all
  with h show ?thesis by blast
qed

text \<open>
  The claim as it was stated has only the selected fault's pattern shown. With
  RTC-absent active and displayed (red and blue), a mode entry paints the indicator
  orange, and the next call, 30 ms into the half period, leaves it orange.
\<close>

theorem updateErrorLED_keeps_mode_colour:
  "(let s0 = (power_on rom_erased Map.empty)\<lparr>gErrors := ERR_RTC\<rparr>;
        s1 = updateErrorLED 10 s0;
        s2 = enterMode MAINTENANCE s1;
        s3 = updateErrorLED 40 s2
    in gErrors s3 = ERR_RTC \<and> select_err (gErrors s3) = ERR_RTC
       \<and> pattern ERR_RTC = (LED_R, LED_B, 360, 360)
       \<and> led_rgb s1 = rgb LED_R
       \<and> led_rgb s3 = rgb LED_O \<and> rgb LED_O \<noteq> rgb LED_R \<and> rgb LED_O \<noteq> rgb LED_B)"
  by (simp add: Let_def enterMode_def power_on_def updateErrorLED_def setLed_def select_err_def
        pattern_def ErrFlags_defs)

text \<open>
  Claim C3. With an empty fault set the indicator should show the base colour and drop
  any blink pattern. The function only sets the LED when its cached \<open>last\<close> colour
  differs from the base colour, and the blinking branch never invalidates that cache:
  after boot in Standard mode, one pass without fault, one pass with Incoherent-reading
  and one pass with the fault cleared, the LED is still red although no fault is active
  and the base colour is green; the last displayed fault is still remembered too.
\<close>

theorem updateErrorLED_base_color_not_restored:
  "(let s0 = enterMode STANDARD (power_on rom_erased Map.empty);
        s1 = updateErrorLED 100 s0;
        s2 = updateErrorLED 200 (s1\<lparr>gErrors := ERR_INCOH\<rparr>);
        s3 = updateErrorLED 300 (s2\<lparr>gErrors := ERR_NONE\<rparr>)
    in led_rgb s1 = rgb LED_G \<and> led_rgb s2 = rgb LED_R
       \<and> gErrors s3 = ERR_NONE \<and> baseColor s3 = LED_G \<and> led_rgb s3 = rgb LED_R
       \<and> upd_lastE s3 = ERR_INCOH)"
  by (simp add: Let_def enterMode_def power_on_def updateErrorLED_def setLed_def select_err_def pattern_def ErrFlags_defs)

section \<open>The scheduler\<close>




section \<open>The settings store\<close>

text \<open>
  Claim C5. When the stored record's integrity code differs from the code computed over
  its other fields, \<open>loadEEPROM\<close>, called as the boot sequence calls it (with both
  sensor switches at their initial value, on), yields exactly the defaults: interval 10,
  timeout 3, rotation threshold 2048, both sensors enabled. It writes them back at once,
  and the stored record then passes its own validation.
\<close>

theorem loadEEPROM_corrupt_gives_defaults:
  "crc16 (eeprom s) \<noteq> crc (eeprom s) \<Longrightarrow> enBME s \<Longrightarrow> enLUM s \<Longrightarrow>
   cfg (loadEEPROM s) = \<lparr>logMin = 10, toutSec = 3, maxBytes = 2048, enMask = 3, crc = 0xA542\<rparr>
   \<and> eeprom (loadEEPROM s) = cfg (loadEEPROM s)
   \<and> crc16 (eeprom (loadEEPROM s)) = crc (eeprom (loadEEPROM s))
   \<and> enBME (loadEEPROM s) \<and> enLUM (loadEEPROM s)"
  by (simp add: loadEEPROM_def saveEEPROM_def setDefaults_def Let_def mask_of_def crc16_defaults
       DEF_LOG_MIN_def DEF_TOUT_def DEF_MAXB_def)

theorem loadEEPROM_corrupt_gives_defaults_witness:
  "crc16 (eeprom (power_on rom_erased Map.empty)) \<noteq> crc (eeprom (power_on rom_erased Map.empty))
   \<and> enBME (power_on rom_erased Map.empty) \<and> enLUM (power_on rom_erased Map.empty)
   \<and> cfg (loadEEPROM (power_on rom_erased Map.empty)) = defaults"
proof -
  let ?s = "power_on rom_erased Map.empty"
  have a: "crc16 (eeprom ?s) \<noteq> crc (eeprom ?s)"
    by (simp add: power_on_def rom_erased_def crc16_def payload_bytes_def bytes16_def bytes32_def)
  have b: "enBME ?s" "enLUM ?s" by (simp_all add: power_on_def)
  show ?thesis using a b loadEEPROM_corrupt_gives_defaults [OF a b] by (simp add: defaults_def)
qed

section \<open>The buttons\<close>

text \<open>
  A press recorded at a non-zero clock reading \<open>tp\<close> and released \<open>d\<close> milliseconds
  later follows the rule table: no flag when \<open>d < 2000\<close>, otherwise exactly one flag,
  Standard or Economic for the green button and quit-maintenance or Maintenance for the
  red one, by the mode at release. A press recorded at reading 0 raises nothing.
\<close>

lemma isr_long_press_rule:
  "(let s' = isrV HIGH (tp + d) (isrV LOW tp s) in
     (if d < 2000 \<or> tp = 0
      then fEco s' = fEco s \<and> fStd s' = fStd s
      else if modeCur s = ECONOMIQUE then fStd s' \<and> fEco s' = fEco s
      else fEco s' \<and> fStd s' = fStd s)
     \<and> fMaint s' = fMaint s \<and> fQuitM s' = fQuitM s)
   \<and> (let s' = isrR HIGH (tp + d) (isrR LOW tp s) in
     (if d < 2000 \<or> tp = 0
      then fMaint s' = fMaint s \<and> fQuitM s' = fQuitM s
      else if modeCur s = MAINTENANCE then fQuitM s' \<and> fMaint s' = fMaint s
      else fMaint s' \<and> fQuitM s' = fQuitM s)
     \<and> fEco s' = fEco s \<and> fStd s' = fStd s)"
  by (auto simp: isrV_def isrR_def HOLD_MS_def Let_def)

text \<open>
  Claim C6. Every press/release pair held for at least 2000 ms should raise exactly one
  transition flag by the rule table. The handlers store \<open>millis()\<close> at the press and
  read a stored zero as "no press recorded", so a press taken while the clock reads 0
  is lost: held for 2500 ms in Standard mode, the green button raises neither the
  Economic nor the Standard request and the red button raises neither the Maintenance
  nor the quit-maintenance request.
\<close>

theorem isr_press_at_clock_zero_ignored:
  "\<not> fEco (isrV HIGH 2500 (isrV LOW 0 (power_on rom_erased Map.empty)))
   \<and> \<not> fStd (isrV HIGH 2500 (isrV LOW 0 (power_on rom_erased Map.empty)))
   \<and> \<not> fMaint (isrR HIGH 2500 (isrR LOW 0 (power_on rom_erased Map.empty)))
   \<and> \<not> fQuitM (isrR HIGH 2500 (isrR LOW 0 (power_on rom_erased Map.empty)))"
  by (simp add: isrV_def isrR_def power_on_def Let_def)

section \<open>Plausibility of the readings\<close>

text \<open>
  Claim C7. After an acquisition the Incoherent-reading flag is set exactly when some
  channel reads a number outside its envelope: temperature \<open>[-40, 85]\<close>, humidity
  \<open>[0, 100]\<close>, pressure \<open>[300, 1100]\<close>, light \<open>[0, 1023]\<close>; so it is cleared by a
  cycle whose checked channels are all in range. An enabled and present channel carries
  the driver's value; a disabled or absent one carries the invalid marker, which is
  never outside an envelope and is printed as \<open>NA\<close>.
\<close>

theorem logOnce_incoherent_iff_outside:
  "sLUM_present s \<Longrightarrow>
   (case readBME e s of (t, h, p) \<Rightarrow>
     (gErrors (logOnce e s) AND ERR_INCOH \<noteq> 0)
       = (outside_envelope t (- 40) 85 \<or> outside_envelope h 0 100
          \<or> outside_envelope p 300 1100 \<or> outside_envelope (readLUM e s) 0 1023)
     \<and> (if sBME_present s \<and> enBME s
         then t = bme_temperature e \<and> h = bme_humidity e \<and> p = bme_pressure_hPa e
         else t = NaN \<and> h = NaN \<and> p = NaN)
     \<and> (if sLUM_present s \<and> enLUM s then readLUM e s = Fin (of_int (analogRead_LUM e))
         else readLUM e s = NaN))
   \<and> \<not> outside_envelope NaN lo hi \<and> printNum e NaN prec = ''NA''"
  by (auto simp: logOnce_incoh ERR_INCOH_def incoh_of_def outside_iff readBME_def readLUM_def printNum_def
      split: prod.splits)

theorem logOnce_incoherent_iff_outside_witness:
  "sLUM_present ((power_on rom_erased Map.empty)\<lparr>sBME_present := True\<rparr>)
   \<and> gErrors (logOnce (env_ok\<lparr>bme_temperature := Fin 200\<rparr>) ((power_on rom_erased Map.empty)\<lparr>sBME_present := True\<rparr>)) AND ERR_INCOH \<noteq> 0
   \<and> gErrors (logOnce env_ok ((power_on rom_erased Map.empty)\<lparr>sBME_present := True, gErrors := ERR_INCOH\<rparr>)) AND ERR_INCOH = 0"
proof -
  let ?s = "(power_on rom_erased Map.empty)\<lparr>sBME_present := True\<rparr>"
  let ?s' = "(power_on rom_erased Map.empty)\<lparr>sBME_present := True, gErrors := ERR_INCOH\<rparr>"
  have a: "sLUM_present ?s" "sLUM_present ?s'" by (simp_all add: power_on_def)
  show ?thesis
    using a logOnce_incoherent_iff_outside [OF a(1), of "env_ok\<lparr>bme_temperature := Fin 200\<rparr>"] logOnce_incoherent_iff_outside [OF a(2), of env_ok]
    by (simp add: readBME_def readLUM_def power_on_def env_ok_def outside_envelope_def)
qed

section \<open>Ejecting the card\<close>

text \<open>
  Claim C4, as amended. The EJECT command closes the log file handle, leaves the card's
  contents and the file index as they are and opens no replacement. No acquisition
  after it reopens a file: the handle stays closed, nothing is written, the index does
  not move, and each acquisition raises Storage-read-write-error.
\<close>

theorem eject_closes_and_nothing_reopens:
  assumes "dropWhile (\<lambda>c. c = CHR '' '') (cstr (cmdBuf st)) = ''EJECT''"
  shows "(let st1 = handleCmdLine e st in
           logFile st1 = None \<and> sd_files st1 = sd_files st \<and> logIdx st1 = logIdx st
           \<and> serial st1 = serial st @ [Println ''OK EJECT'']
           \<and> (\<forall>es. logFile (fold logOnce es st1) = None
                    \<and> sd_files (fold logOnce es st1) = sd_files st
                    \<and> logIdx (fold logOnce es st1) = logIdx st)
           \<and> (\<forall>e2. gErrors (logOnce e2 st1) AND ERR_SD_RW \<noteq> 0))"
proof -
  have a: "logFile (handleCmdLine e st) = None \<and> sd_files (handleCmdLine e st) = sd_files st
      \<and> logIdx (handleCmdLine e st) = logIdx st
      \<and> serial (handleCmdLine e st) = serial st @ [Println ''OK EJECT'']"
    using assms by (simp add: handleCmdLine_def Let_def starts_def println_def)
  then show ?thesis using fold_logOnce_closed [of "handleCmdLine e st"] logOnce_closed [of "handleCmdLine e st"]
    by (simp add: Let_def)
qed

theorem eject_closes_and_nothing_reopens_witness:
  "dropWhile (\<lambda>c. c = CHR '' '') (cstr (cmdBuf (card_open\<lparr>cmdBuf := ''EJECT''\<rparr>))) = ''EJECT''
   \<and> logFile (handleCmdLine env_ok (card_open\<lparr>cmdBuf := ''EJECT''\<rparr>)) = None
   \<and> logFile (fold logOnce [env_ok, env_ok] (handleCmdLine env_ok (card_open\<lparr>cmdBuf := ''EJECT''\<rparr>))) = None"
proof -
  have a: "dropWhile (\<lambda>c. c = CHR '' '') (cstr (cmdBuf (card_open\<lparr>cmdBuf := ''EJECT''\<rparr>))) = ''EJECT''"
    by (simp add: cstr_def)
  from eject_closes_and_nothing_reopens [OF a, of env_ok]
  have b: "logFile (handleCmdLine env_ok (card_open\<lparr>cmdBuf := ''EJECT''\<rparr>)) = None"
    and c: "\<forall>es. logFile (fold logOnce es (handleCmdLine env_ok (card_open\<lparr>cmdBuf := ''EJECT''\<rparr>))) = None"
    by (simp_all add: Let_def)
  from c have "logFile (fold logOnce [env_ok, env_ok] (handleCmdLine env_ok (card_open\<lparr>cmdBuf := ''EJECT''\<rparr>))) = None"
    by blast
  with a b show ?thesis by blast
qed

text \<open>
  The claim as it was stated has the next acquisition reopen a file with a new index.
  After the boot sequence opened \<open>LOG000.CSV\<close>, an EJECT and then an acquisition with
  every sensor in range leave the handle closed, the index at 1 and the card untouched.
\<close>

theorem acquisition_after_eject_does_not_reopen:
  "(let s1 = handleCmdLine env_ok (card_open\<lparr>cmdBuf := ''EJECT''\<rparr>);
        s2 = logOnce env_ok s1
    in logFile card_open = Some ''LOG000.CSV'' \<and> logIdx card_open = 1
       \<and> logFile s2 = None \<and> logIdx s2 = 1 \<and> sd_files s2 = sd_files card_open)"
proof -
  let ?s1 = "handleCmdLine env_ok (card_open\<lparr>cmdBuf := ''EJECT''\<rparr>)"
  have a: "logFile ?s1 = None \<and> logIdx ?s1 = 1 \<and> sd_files ?s1 = sd_files card_open"
    by (simp add: handleCmdLine_def Let_def cstr_def starts_def println_def card_open_fields)
  then show ?thesis using logOnce_closed [of ?s1 env_ok] by (simp add: Let_def card_open_fields)
qed

section \<open>Rotation of the log file\<close>

text \<open>
  Claim C8, as amended. A successful write appends exactly its record to the current
  log file. If that leaves the file's size at or above the rotation threshold, the file
  is closed and the file named by the next index (the 16-bit counter's successor, one
  greater unless the counter wraps) is opened, a different file; when it opens, the
  next successful write appends to it, and when it does not, Storage-full is raised,
  no file is open and later acquisitions write nothing. The prior file's size is then
  less than the threshold plus the record's length whenever its size before the write
  was below the threshold. If the write leaves the size below the threshold, the file
  and the index stay as they are.
\<close>

theorem rotation_after_threshold:
  assumes "haveSD s" "logFile s = Some (log_name i)" "logIdx s = i + 1" "sd_write_ok e"
    and "fsize s (log_name i) + length (log_line e s) < 2 ^ 32"
  shows "(let s' = logOnce e s in
      content s' (log_name i) = content s (log_name i) @ log_line e s
    \<and> (if unat (maxBytes (cfg s)) \<le> fsize s (log_name i) + length (log_line e s)
        then (fsize s (log_name i) < unat (maxBytes (cfg s))
                \<longrightarrow> fsize s' (log_name i) < unat (maxBytes (cfg s)) + length (log_line e s))
           \<and> logIdx s' = i + 2 \<and> logName s' = log_name (i + 1) \<and> log_name (i + 1) \<noteq> log_name i
           \<and> (i \<noteq> 0xFFFF \<longrightarrow> unat (i + 1) = unat i + 1)
           \<and> (if sd_open_ok e (log_name (i + 1))
               then logFile s' = Some (log_name (i + 1)) \<and> gErrors s' AND ERR_SD_FULL = 0
                    \<and> (\<forall>e2. sd_write_ok e2 \<longrightarrow>
                          content (logOnce e2 s') (log_name (i + 1))
                            = content s' (log_name (i + 1)) @ log_line e2 s')
               else logFile s' = None \<and> gErrors s' AND ERR_SD_FULL \<noteq> 0
                    \<and> (\<forall>e2. sd_files (logOnce e2 s') = sd_files s'))
        else logFile s' = Some (log_name i) \<and> logIdx s' = i + 1))"
proof (cases "unat (maxBytes (cfg s)) \<le> fsize s (log_name i) + length (log_line e s)")
  case True
  from logOnce_rotation [OF assms True] True show ?thesis by (simp add: Let_def)
next
  case False
  from logOnce_stays [OF assms False] logOnce_appends [OF assms(1-4)] False
  show ?thesis by (simp add: Let_def)
qed

theorem rotation_after_threshold_witness:
  "haveSD (with_threshold 40) \<and> logFile (with_threshold 40) = Some (log_name 0)
   \<and> logIdx (with_threshold 40) = 0 + 1 \<and> sd_write_ok env_ok
   \<and> fsize (with_threshold 40) (log_name 0) + length (log_line env_ok (with_threshold 40)) < 2 ^ 32
   \<and> fsize (with_threshold 40) ''LOG000.CSV'' = 29
   \<and> logFile (logOnce env_ok (with_threshold 40)) = Some ''LOG001.CSV''
   \<and> fsize (logOnce env_ok (with_threshold 40)) ''LOG000.CSV'' = 44
   \<and> logFile (logOnce env_ok (with_threshold 45)) = Some ''LOG000.CSV''"
proof -
  have n: "\<And>k. length (log_line env_ok (with_threshold k)) = 15"
    using log_line_with_threshold [of "\<lambda>_. True"] by (simp add: env_ok_sd CRLF_def)
  have b: "\<And>k. fsize (with_threshold k) (log_name 0) + length (log_line env_ok (with_threshold k)) < 2 ^ 32"
    by (simp add: with_threshold_fields n)
  note w40 = rotation_after_threshold [OF with_threshold_fields(1-3) env_ok_sd(1) b, of 40]
  note w45 = rotation_after_threshold [OF with_threshold_fields(1-3) env_ok_sd(1) b, of 45]
  have c: "content (with_threshold 40) ''LOG000.CSV'' = csv_header"
    by (simp add: content_def with_threshold_def card_open_fields)
  from w40 have "logFile (logOnce env_ok (with_threshold 40)) = Some (log_name (0 + 1))"
      "content (logOnce env_ok (with_threshold 40)) (log_name 0)
         = content (with_threshold 40) (log_name 0) @ log_line env_ok (with_threshold 40)"
    by (simp_all add: Let_def with_threshold_fields n env_ok_sd)
  then have 1: "logFile (logOnce env_ok (with_threshold 40)) = Some ''LOG001.CSV''"
      "fsize (logOnce env_ok (with_threshold 40)) ''LOG000.CSV'' = 44"
    by (simp_all add: log_name_0 log_name_1 fsize_content c n csv_header_def CRLF_def)
  from w45 have "logFile (logOnce env_ok (with_threshold 45)) = Some (log_name 0)"
    by (simp add: Let_def with_threshold_fields n)
  then have 2: "logFile (logOnce env_ok (with_threshold 45)) = Some ''LOG000.CSV''"
    by (simp add: log_name_0)
  have 3: "fsize (with_threshold 40) ''LOG000.CSV'' = 29"
    using with_threshold_fields(4) [of 40] by (simp add: log_name_0)
  show ?thesis using with_threshold_fields(1-3) [of 40] env_ok_sd(1) b [of 40] 1 2 3
    by blast
qed

text \<open>
  The claim as it was stated bounds the prior file's size by the threshold plus one
  record, and has the next write go to the new file. With the threshold at 10 bytes,
  below the 29-byte header, the first 15-byte record rotates the file at 44 bytes, more
  than 10 + 15. With the threshold at 40 bytes the same record takes the file from 29
  to 44 bytes; when the new file cannot be opened, the rotation leaves no file open and
  the next acquisition writes nothing.
\<close>

theorem rotation_bound_and_retarget_fail:
  "(let s1 = logOnce env_ok (with_threshold 10);
        s2 = logOnce (env_ok\<lparr>sd_open_ok := \<lambda>_. False\<rparr>) (with_threshold 40)
    in logFile (with_threshold 10) = Some ''LOG000.CSV'' \<and> fsize (with_threshold 10) ''LOG000.CSV'' = 29
     \<and> unat (maxBytes (cfg (with_threshold 10))) = 10
     \<and> length (log_line env_ok (with_threshold 10)) = 15
     \<and> logFile s1 = Some ''LOG001.CSV'' \<and> fsize s1 ''LOG000.CSV'' = 44
     \<and> unat (maxBytes (cfg (with_threshold 10))) + length (log_line env_ok (with_threshold 10))
         < fsize s1 ''LOG000.CSV''
     \<and> fsize (with_threshold 40) ''LOG000.CSV'' = 29 \<and> unat (maxBytes (cfg (with_threshold 40))) = 40
     \<and> fsize s2 ''LOG000.CSV'' = 44
     \<and> logFile s2 = None \<and> sd_files (logOnce env_ok s2) = sd_files s2)"
proof -
  let ?s = "with_threshold 10"
  let ?t = "with_threshold 40"
  let ?f = "env_ok\<lparr>sd_open_ok := \<lambda>_. False\<rparr>"
  have n: "length (log_line env_ok ?s) = 15" "length (log_line ?f ?t) = 15"
    using log_line_with_threshold [of "\<lambda>_. True" 10] log_line_with_threshold [of "\<lambda>_. False" 40]
    by (simp_all add: env_ok_sd CRLF_def)
  have wf: "sd_write_ok ?f" "\<not> sd_open_ok ?f (log_name (0 + 1))" by (simp_all add: env_ok_def)
  have ok: "sd_open_ok env_ok (log_name (0 + 1))" by (simp add: env_ok_def)
  have b: "fsize ?s (log_name 0) + length (log_line env_ok ?s) < 2 ^ 32"
          "fsize ?t (log_name 0) + length (log_line ?f ?t) < 2 ^ 32"
    by (simp_all add: with_threshold_fields n)
  have t: "unat (maxBytes (cfg ?s)) \<le> fsize ?s (log_name 0) + length (log_line env_ok ?s)"
          "unat (maxBytes (cfg ?t)) \<le> fsize ?t (log_name 0) + length (log_line ?f ?t)"
    by (simp_all add: with_threshold_fields n)
  have c: "content ?s ''LOG000.CSV'' = csv_header" "content ?t ''LOG000.CSV'' = csv_header"
    by (simp_all add: content_def with_threshold_def card_open_fields)
  from logOnce_rotation [OF with_threshold_fields(1-3) env_ok_sd(1) b(1) t(1)] ok
  have "logFile (logOnce env_ok ?s) = Some (log_name (0 + 1))"
       "content (logOnce env_ok ?s) (log_name 0) = content ?s (log_name 0) @ log_line env_ok ?s"
    by (simp_all add: Let_def)
  then have 1: "logFile (logOnce env_ok ?s) = Some ''LOG001.CSV''"
       "fsize (logOnce env_ok ?s) ''LOG000.CSV'' = 44"
    by (simp_all add: log_name_0 log_name_1 fsize_content c n csv_header_def CRLF_def)
  from logOnce_rotation [OF with_threshold_fields(1-3) wf(1) b(2) t(2)] wf(2)
  have 2: "logFile (logOnce ?f ?t) = None"
       "sd_files (logOnce env_ok (logOnce ?f ?t)) = sd_files (logOnce ?f ?t)"
    and "content (logOnce ?f ?t) (log_name 0) = content ?t (log_name 0) @ log_line ?f ?t"
    by (simp_all add: Let_def)
  then have 4: "fsize (logOnce ?f ?t) ''LOG000.CSV'' = 44"
    by (simp add: log_name_0 fsize_content c n csv_header_def CRLF_def)
  have 3: "logFile ?s = Some ''LOG000.CSV''" "fsize ?s ''LOG000.CSV'' = 29"
      "unat (maxBytes (cfg ?s)) = 10" "fsize ?t ''LOG000.CSV'' = 29" "unat (maxBytes (cfg ?t)) = 40"
    using with_threshold_fields(2,4,5) [of 10] with_threshold_fields(4,5) [of 40]
    by (simp_all add: log_name_0)
  show ?thesis unfolding Let_def using 1 2 3 4 n(1) by simp
qed

section \<open>The Configuration time-out\<close>

text \<open>
  Claim C9, as amended. In a pass of the main loop that starts in Configuration mode
  with no transition request pending, the mode becomes Standard if and only if, at the
  pass's single time-out test, more than 30000 ms (wrap-around difference) have passed
  since the last byte was read from the serial port, bytes read in this pass included;
  otherwise the mode stays Configuration.
\<close>

theorem config_timeout_after_silence:
  assumes "modeCur s = CONFIGURATION" "\<not> fEco s" "\<not> fMaint s" "\<not> fStd s" "\<not> fQuitM s"
  shows "modeCur (loop e s) =
     (if 30000 < unat (ms_cfg e - (if serial_in e = [] then lastCmdMs s else ms_serial e))
      then STANDARD else CONFIGURATION)
   \<and> lastCmdMs (loop e s) = (if serial_in e = [] then lastCmdMs s else ms_serial e)"
  using assms by (rule loop_config_pass)

theorem config_timeout_after_silence_witness:
  "modeCur config_boot = CONFIGURATION \<and> \<not> fEco config_boot \<and> \<not> fMaint config_boot
   \<and> \<not> fStd config_boot \<and> \<not> fQuitM config_boot
   \<and> modeCur (loop (env_ok\<lparr>ms_cfg := 30000\<rparr>) config_boot) = CONFIGURATION
   \<and> modeCur (loop (env_ok\<lparr>ms_cfg := 30001\<rparr>) config_boot) = STANDARD"
  using config_timeout_after_silence [OF config_boot_fields(1-5), of "env_ok\<lparr>ms_cfg := 30000\<rparr>"]
        config_timeout_after_silence [OF config_boot_fields(1-5), of "env_ok\<lparr>ms_cfg := 30001\<rparr>"]
  by (simp add: config_boot_fields env_ok_def)

text \<open>
  The claim as it was stated counts the time since the last accepted command. After a
  boot into Configuration mode, a single byte \<open>X\<close> read at 39990 ms, which is no
  command and prints nothing, keeps the mode at 40000 ms although no command was
  accepted for 40 s. And a pass exactly 30000 ms after the last byte does not leave
  Configuration yet.
\<close>

theorem stray_byte_restarts_config_timeout:
  "(let e = env_ok\<lparr>serial_in := ''X'', ms_serial := 39990, ms_cfg := 40000, ms_led := 40000\<rparr>
    in lastCmdMs config_boot = 0 \<and> modeCur config_boot = CONFIGURATION
       \<and> modeCur (loop e config_boot) = CONFIGURATION
       \<and> cmdBuf (loop e config_boot) = ''X''
       \<and> serial (loop e config_boot) = serial config_boot
       \<and> modeCur (loop (env_ok\<lparr>ms_cfg := 30000\<rparr>) config_boot) = CONFIGURATION)"
proof -
  let ?e = "env_ok\<lparr>serial_in := ''X'', ms_serial := 39990, ms_cfg := 40000, ms_led := 40000\<rparr>"
  let ?u = "config_boot\<lparr>cmdBuf := ''X'', lastCmdMs := 39990\<rparr>"
  have a: "serial_loop ?e (serial_in ?e) config_boot = ?u"
    using serial_loop_chars [of "''X''" config_boot ?e "[]"] by (simp add: config_boot_fields)
  have t: "tick_mode ?e ?u = ?u" by (simp add: tick_mode_def config_boot_fields tickCfg_def)
  have c: "cfg_timeout ?e ?u = ?u" by (simp add: cfg_timeout_def CFG_BACK_def)
  have l: "loop ?e config_boot = updateErrorLED 40000 ?u"
    by (simp only: loop_stages apply_flags_idle [OF config_boot_fields(2-5)] a t c) (simp)?
  have k: "cmdBuf (updateErrorLED 40000 ?u) = ''X''"
    using keeps_updateErrorLED [of ?u 40000] by (simp add: keeps_def)
  have q: "modeCur (loop (env_ok\<lparr>ms_cfg := 30000\<rparr>) config_boot) = CONFIGURATION"
    using loop_config_pass [OF config_boot_fields(1-5), of "env_ok\<lparr>ms_cfg := 30000\<rparr>"]
    by (simp add: config_boot_fields env_ok_def)
  show ?thesis
    using loop_config_pass [OF config_boot_fields(1-5), of ?e] q
    by (simp add: Let_def l k updateErrorLED_serial config_boot_fields)
qed

section \<open>Commands in every mode\<close>



end
